theory Spec2Isabelle
  imports Complex_Main
begin

section \<open>JavaScript string primitives used by the bot\<close>

text \<open>
  Strings are lists of 8-bit characters, the code points U+0000 to U+00FF.
  \<open>toLowerCase\<close> folds the ASCII letters \<open>A\<close>..\<open>Z\<close> and the capital letters
  U+00C0 to U+00DE of the Latin-1 block (U+00D7, the multiplication sign, is not a
  letter); each of them lies 32 below its lower-case form.
\<close>

definition toLowerChar :: "char \<Rightarrow> char" where
  "toLowerChar c =
     (let n = (of_char c :: nat)
      in if (65 \<le> n \<and> n \<le> 90) \<or> (192 \<le> n \<and> n \<le> 222 \<and> n \<noteq> 215)
         then char_of (n + 32) else c)"

definition toLowerCase :: "string \<Rightarrow> string" where
  "toLowerCase s = map toLowerChar s"

text \<open>\<open>s.startsWith(p)\<close>.\<close>

definition startsWith :: "string \<Rightarrow> string \<Rightarrow> bool" where
  "startsWith s p = (take (length p) s = p)"

text \<open>\<open>s.includes(t)\<close>: \<open>t\<close> occurs in \<open>s\<close> as a contiguous run.\<close>

fun includesStr :: "string \<Rightarrow> string \<Rightarrow> bool" where
  "includesStr [] t = (t = [])"
| "includesStr (c # cs) t = (startsWith (c # cs) t \<or> includesStr cs t)"

text \<open>\<open>s.split(sep)\<close> for a one-character separator; the empty string gives one empty piece.\<close>

fun splitStr :: "char \<Rightarrow> string \<Rightarrow> string list" where
  "splitStr sep [] = [[]]"
| "splitStr sep (c # cs) =
     (if c = sep then [] # splitStr sep cs
      else (case splitStr sep cs of
              [] \<Rightarrow> [[c]]
            | w # ws \<Rightarrow> (c # w) # ws))"

text \<open>\<open>s.replace(a, b)\<close> with one-character strings: only the first occurrence changes.\<close>

fun replaceStr :: "char \<Rightarrow> char \<Rightarrow> string \<Rightarrow> string" where
  "replaceStr a b [] = []"
| "replaceStr a b (c # cs) = (if c = a then b # cs else c # replaceStr a b cs)"

text \<open>A string is truthy when it is present and not empty.\<close>

fun truthy :: "string option \<Rightarrow> bool" where
  "truthy None = False"
| "truthy (Some s) = (s \<noteq> [])"

section \<open>TaxonomyMatcher: \<open>findBestTaxonomyMatch\<close>\<close>

text \<open>
  A descriptor of the name-search service. Both fields are read through \<open>?.\<close> in the
  source, so either may be absent.
\<close>

record candidate =
  name :: "string option"
  code :: "string option"

datatype search_type = SpeciesRank | FamilyRank

fun searchTypeStr :: "search_type \<Rightarrow> string" where
  "searchTypeStr SpeciesRank = ''species''"
| "searchTypeStr FamilyRank = ''family''"

text \<open>\<open>item.code?.includes(`,${searchType}`) || false\<close>\<close>

definition typeMatch :: "search_type \<Rightarrow> candidate \<Rightarrow> bool" where
  "typeMatch searchType item =
     (case code item of
        None \<Rightarrow> False
      | Some c \<Rightarrow> includesStr c (CHR '','' # searchTypeStr searchType))"

text \<open>
  \<open>itemName.includes(` - ${searchLower}`) || itemName.includes(`- ${searchLower}`)\<close>
  with \<open>itemName = item.name?.toLowerCase() || ''\<close>.
\<close>

definition scientificNameMatch :: "string \<Rightarrow> candidate \<Rightarrow> bool" where
  "scientificNameMatch searchLower item =
     (let itemName = (case name item of None \<Rightarrow> [] | Some n \<Rightarrow> toLowerCase n)
      in includesStr itemName ('' - '' @ searchLower) \<or> includesStr itemName (''- '' @ searchLower))"

definition findBestTaxonomyMatch ::
    "candidate list \<Rightarrow> string \<Rightarrow> search_type \<Rightarrow> candidate option" where
  "findBestTaxonomyMatch taxonomyData searchTerm searchType =
     (if taxonomyData = [] then None
      else
        let searchLower = toLowerCase searchTerm;
            exactMatches =
              filter (\<lambda>item. scientificNameMatch searchLower item \<and> typeMatch searchType item)
                taxonomyData
        in if exactMatches \<noteq> [] then Some (hd exactMatches)
           else
             let typeMatches = filter (typeMatch searchType) taxonomyData
             in if typeMatches \<noteq> [] then Some (hd typeMatches)
                else Some (hd taxonomyData))"

subsection \<open>The matching rule as the specification words it\<close>

text \<open>
  The display name has the form \<open><common> - <scientific>\<close>; the scientific-name segment
  is what follows the first \<open>" - "\<close>.
\<close>

fun spec_sciSegment :: "string \<Rightarrow> string option" where
  "spec_sciSegment [] = None"
| "spec_sciSegment (c # cs) =
     (if startsWith (c # cs) '' - '' then Some (drop 3 (c # cs)) else spec_sciSegment cs)"

text \<open>
  Priority 1 in the specification's words: the segment contains the search term, case
  ignored, anywhere, and the code names the requested rank.
\<close>

definition spec_priority1 :: "string \<Rightarrow> search_type \<Rightarrow> candidate \<Rightarrow> bool" where
  "spec_priority1 searchTerm searchType item =
     ((case name item of
         None \<Rightarrow> False
       | Some n \<Rightarrow>
           (case spec_sciSegment n of
              None \<Rightarrow> False
            | Some seg \<Rightarrow> includesStr (toLowerCase seg) (toLowerCase searchTerm)))
      \<and> typeMatch searchType item)"

text \<open>
  Priority 1 as the source tests it: the lower-cased display name holds the separator
  \<open>"- "\<close> immediately followed by the lower-cased search term.
\<close>

definition termFollowsDash :: "string \<Rightarrow> search_type \<Rightarrow> candidate \<Rightarrow> bool" where
  "termFollowsDash searchTerm searchType item =
     ((\<exists>n pre post. name item = Some n
          \<and> toLowerCase n = pre @ ''- '' @ toLowerCase searchTerm @ post)
      \<and> typeMatch searchType item)"

section \<open>The world outside the bot\<close>

text \<open>
  \<open>Math.random()\<close> yields a number in \<open>[0, 1)\<close>; \<open>Math.floor(Math.random() * n)\<close> is
  the index drawn from it.
\<close>

typedef sample = "{r :: rat. 0 \<le> r \<and> r < 1}"
  by (rule exI [of _ 0]) simp

setup_lifting type_definition_sample

lift_definition randomIndex :: "sample \<Rightarrow> nat \<Rightarrow> nat" is
  "\<lambda>r n. nat \<lfloor>r * of_nat n\<rfloor>" .

text \<open>The sample \<open>p / q\<close>, for writing concrete runs (\<open>0\<close> when \<open>p / q\<close> is not below one).\<close>

lift_definition sampleOf :: "nat \<Rightarrow> nat \<Rightarrow> sample" is
  "\<lambda>p q. if p < q then of_nat p / of_nat q else 0"
  by auto

text \<open>
  A result record of the media index:
  \<open>{assetId: number, taxonomy?: {sciName, comName, category}, tags?: string | string[]}\<close>.
  \<open>assetId\<close> is \<open>Some n\<close> exactly when \<open>typeof assetId === 'number'\<close>. An element of a
  tag array that is not a string is \<open>TagOther\<close>; a tag field that is neither an array
  nor a string is \<open>TagsOther\<close>.
\<close>

record taxonomy =
  sciName :: "string option"
  comName :: "string option"
  category :: "string option"

datatype tag = TagStr string | TagOther

datatype tags_field = NoTags | TagList "tag list" | TagString string | TagsOther

record media_item =
  assetId :: "int option"
  taxonomy :: "taxonomy option"
  tags :: tags_field

text \<open>
  What the two services answer. \<open>Failure\<close> stands for every path into the \<open>catch\<close>
  block: a browser that does not start, a response that is not ok, a body that is not JSON.
\<close>

datatype taxonomy_response = TaxonomyFailure | TaxonomyNotArray | TaxonomyArray "candidate list"

datatype media_response = MediaFailure | MediaNotArray | MediaArray "media_item list"

record bird_record =
  Order :: string
  Family :: string
  Family_English_name :: string
  Scientific_name :: string
  English_name_AviList :: string
  Range :: string
  IUCN_Red_List_Category :: string
  Species_code_Cornell_Lab :: string

record mammal_record =
  sciName :: string
  mainCommonName :: string
  order :: string
  family :: string
  continentDistribution :: string
  biogeographicRealm :: string
  iucnStatus :: string
  distributionNotes :: string

text \<open>
  Everything the bot reads from outside: the random numbers in the order they are drawn,
  the answers of the two services by request number and arguments, and the two parsed
  reference files (\<open>None\<close> when the file does not exist).
\<close>

record world =
  random :: "nat \<Rightarrow> sample"
  taxonomyApi :: "nat \<Rightarrow> string \<Rightarrow> taxonomy_response"
  mediaApi :: "nat \<Rightarrow> string \<Rightarrow> bool \<Rightarrow> media_response"
  birdCsv :: "bird_record list option"
  mammalCsv :: "mammal_record list option"

text \<open>
  What a run leaves behind: how many random numbers and requests it has used, and the
  observable events in order (the attempt and re-roll lines of the console, and the
  \<open>setTimeout\<close> delays in milliseconds).
\<close>

datatype event = Attempt nat | Reroll nat | KeptAfterRerolls | Sleep nat

record state =
  randomCalls :: nat
  requests :: nat
  trace :: "event list"

definition emit :: "event \<Rightarrow> state \<Rightarrow> state" where
  "emit e st = st\<lparr>trace := trace st @ [e]\<rparr>"

definition mathRandom :: "world \<Rightarrow> state \<Rightarrow> sample \<times> state" where
  "mathRandom w st = (random w (randomCalls st), st\<lparr>randomCalls := randomCalls st + 1\<rparr>)"

text \<open>\<open>xs[i]\<close>: \<open>undefined\<close> out of range.\<close>

definition nth_opt :: "'a list \<Rightarrow> nat \<Rightarrow> 'a option" where
  "nth_opt xs i = (if i < length xs then Some (xs ! i) else None)"

datatype error =
    TypeError
  | CsvNotFound
  | NoRecords
  | TestSpeciesNotFound string
  | NoUsableMediaForTestSpecies string
  | FailedAfterAttempts nat
  | NotSpeciesSpecific "string option"
  | NoSpeciesSpecificTaxonomy "taxonomy option"
  | TextExceedsLimit

section \<open>MediaSearchSession: \<open>searchMacaulayForTaxon\<close>\<close>

text \<open>
  \<open>tags.some(tag => tag.toLowerCase().includes('dead'))\<close>: the elements are visited in
  order up to the first hit; an element without \<open>toLowerCase\<close> raises (\<open>None\<close>).
\<close>

fun someDead :: "tag list \<Rightarrow> bool option" where
  "someDead [] = Some False"
| "someDead (TagStr s # ts) =
     (if includesStr (toLowerCase s) ''dead'' then Some True else someDead ts)"
| "someDead (TagOther # ts) = None"

text \<open>The filter callback: whether the item is kept.\<close>

fun notTaggedDead :: "media_item \<Rightarrow> bool option" where
  "notTaggedDead item =
     (case tags item of
        TagList ts \<Rightarrow> map_option Not (someDead ts)
      | TagString s \<Rightarrow> Some (\<not> includesStr (toLowerCase s) ''dead'')
      | _ \<Rightarrow> Some True)"

text \<open>\<open>jsonData.filter(...)\<close>; an exception in the callback ends the whole call.\<close>

fun filterDead :: "media_item list \<Rightarrow> media_item list option" where
  "filterDead [] = Some []"
| "filterDead (item # items) =
     (case notTaggedDead item of
        None \<Rightarrow> None
      | Some keep \<Rightarrow>
          (case filterDead items of
             None \<Rightarrow> None
           | Some kept \<Rightarrow> Some (if keep then item # kept else kept)))"

text \<open>
  The result is the pair of \<open>assetIds\<close> and \<open>getAssetDetails\<close>, or \<open>None\<close> for \<open>null\<close>.
\<close>

definition searchMacaulayForTaxon ::
    "world \<Rightarrow> string \<Rightarrow> bool \<Rightarrow> state
       \<Rightarrow> (int list \<times> (int \<Rightarrow> media_item option)) option \<times> state" where
  "searchMacaulayForTaxon w taxonCode includeChildTaxa st =
     (let st' = st\<lparr>requests := requests st + 1\<rparr>
      in case mediaApi w (requests st) taxonCode includeChildTaxa of
           MediaFailure \<Rightarrow> (None, st')
         | MediaNotArray \<Rightarrow> (None, st')
         | MediaArray jsonData \<Rightarrow>
             (case filterDead jsonData of
                None \<Rightarrow> (None, st')
              | Some filteredResults \<Rightarrow>
                  (Some (map the (filter (\<lambda>id. id \<noteq> None) (map assetId filteredResults)),
                         \<lambda>assetId'. find (\<lambda>item. assetId item = Some assetId') filteredResults),
                   st')))"

subsection \<open>The exclusion rule as the specification words it\<close>

text \<open>The string contains \<open>dead\<close> as a substring, each letter in either case.\<close>

definition spec_containsDead :: "string \<Rightarrow> bool" where
  "spec_containsDead s =
     (\<exists>pre c1 c2 c3 c4 post. s = pre @ [c1, c2, c3, c4] @ post
        \<and> c1 \<in> {CHR ''d'', CHR ''D''} \<and> c2 \<in> {CHR ''e'', CHR ''E''}
        \<and> c3 \<in> {CHR ''a'', CHR ''A''} \<and> c4 \<in> {CHR ''d'', CHR ''D''})"

text \<open>The tag field, a list of strings or a single string, contains \<open>dead\<close>.\<close>

definition spec_taggedDead :: "media_item \<Rightarrow> bool" where
  "spec_taggedDead item =
     (case tags item of
        TagList ts \<Rightarrow> (\<exists>s. TagStr s \<in> set ts \<and> spec_containsDead s)
      | TagString s \<Rightarrow> spec_containsDead s
      | _ \<Rightarrow> False)"

text \<open>Every element of a tag array is a string.\<close>

definition stringTags :: "media_item \<Rightarrow> bool" where
  "stringTags item =
     (case tags item of
        TagList ts \<Rightarrow> TagOther \<notin> set ts
      | _ \<Rightarrow> True)"

section \<open>\<open>searchMacaulayByTaxonomy\<close>\<close>

text \<open>\<open>MacaulaySearchResult\<close>; \<open>getAssetDetails\<close> is optional in the interface.\<close>

record macaulaySearchResult =
  assetIds :: "int list"
  taxonomyLevel :: string
  commonName :: "string option"
  getAssetDetails :: "(int \<Rightarrow> media_item option) option"

text \<open>\<open>s.split(sep)[0]\<close> for a non-empty separator: what precedes its first occurrence.\<close>

fun firstPiece :: "string \<Rightarrow> string \<Rightarrow> string" where
  "firstPiece sep [] = []"
| "firstPiece sep (c # cs) = (if startsWith (c # cs) sep then [] else c # firstPiece sep cs)"

definition searchMacaulayByTaxonomy ::
    "world \<Rightarrow> string \<Rightarrow> search_type \<Rightarrow> state \<Rightarrow> macaulaySearchResult option \<times> state" where
  "searchMacaulayByTaxonomy w searchTerm searchType st =
     (let st1 = st\<lparr>requests := requests st + 1\<rparr>
      in case taxonomyApi w (requests st) searchTerm of
           TaxonomyFailure \<Rightarrow> (None, st1)
         | TaxonomyNotArray \<Rightarrow> (None, st1)
         | TaxonomyArray taxonomyData \<Rightarrow>
             if taxonomyData = [] then (None, st1)
             else
               (case findBestTaxonomyMatch taxonomyData searchTerm searchType of
                  None \<Rightarrow> (None, st1)
                | Some selectedTaxonomy \<Rightarrow>
                    let taxonCode =
                          (case code selectedTaxonomy of
                             None \<Rightarrow> None
                           | Some c \<Rightarrow> nth_opt (splitStr CHR '','' c) 0);
                        commonName' = map_option (firstPiece '' - '') (name selectedTaxonomy)
                    in case taxonCode of
                         None \<Rightarrow> (None, st1)
                       | Some tc \<Rightarrow>
                           if tc = [] then (None, st1)
                           else
                             (case searchMacaulayForTaxon w tc True st1 of
                                (None, st2) \<Rightarrow> (None, st2)
                              | (Some (ids, details), st2) \<Rightarrow>
                                  if ids = [] then (None, st2)
                                  else
                                    (Some \<lparr>assetIds = ids,
                                           taxonomyLevel = searchTypeStr searchType,
                                           commonName = commonName',
                                           getAssetDetails = Some details\<rparr>,
                                     st2))))"

section \<open>TaxonSampler\<close>

definition getRandomBirdRecord ::
    "world \<Rightarrow> bird_record list \<Rightarrow> state \<Rightarrow> bird_record option \<times> state" where
  "getRandomBirdRecord w records st =
     (let (r, st') = mathRandom w st
      in (nth_opt records (randomIndex r (length records)), st'))"

definition maxRerolls :: nat where
  "maxRerolls = 2"

definition shouldReroll :: "mammal_record \<Rightarrow> bool" where
  "shouldReroll selectedMammal =
     (family selectedMammal = ''Muridae'' \<or> family selectedMammal = ''Soricidae''
      \<or> order selectedMammal = ''Chiroptera'')"

text \<open>
  The \<open>do ... while\<close> loop of \<open>getRandomMammalRecord\<close>, entered with the current
  \<open>rerollCount\<close>. Reading a field of \<open>records[randomIndex]\<close> when the list is empty
  raises a \<open>TypeError\<close>.
\<close>

function getRandomMammalRecord_loop ::
    "world \<Rightarrow> mammal_record list \<Rightarrow> nat \<Rightarrow> state \<Rightarrow> (error + mammal_record) \<times> state" where
  "getRandomMammalRecord_loop w records rerollCount st =
     (let (r, st1) = mathRandom w st
      in case nth_opt records (randomIndex r (length records)) of
           None \<Rightarrow> (Inl TypeError, st1)
         | Some selectedMammal \<Rightarrow>
             if shouldReroll selectedMammal \<and> rerollCount < maxRerolls then
               (let st2 = emit (Reroll (rerollCount + 1)) st1
                in if rerollCount + 1 \<le> maxRerolls
                   then getRandomMammalRecord_loop w records (rerollCount + 1) st2
                   else (Inr selectedMammal, st2))
             else
               (Inr selectedMammal,
                if shouldReroll selectedMammal \<and> rerollCount \<ge> maxRerolls
                then emit KeptAfterRerolls st1 else st1))"
  by pat_completeness auto
termination
  by (relation "measure (\<lambda>(w, records, rerollCount, st). maxRerolls - rerollCount)") auto

definition getRandomMammalRecord ::
    "world \<Rightarrow> mammal_record list \<Rightarrow> state \<Rightarrow> (error + mammal_record) \<times> state" where
  "getRandomMammalRecord w records st = getRandomMammalRecord_loop w records 0 st"

section \<open>AssetTaxonomyClassifier: the two family-result filters\<close>

text \<open>
  The callback of the filter in test-species mode. Its argument is what
  \<open>getAssetDetails(assetId)\<close> returned. The statements after the unconditional
  \<open>return false\<close> (the tag check) are never run and have no counterpart here.
\<close>

definition speciesSpecificForTarget :: "mammal_record \<Rightarrow> media_item option \<Rightarrow> bool" where
  "speciesSpecificForTarget selectedMammal assetDetails =
     (case (case assetDetails of None \<Rightarrow> None | Some d \<Rightarrow> taxonomy d) of
        None \<Rightarrow> False
      | Some tx \<Rightarrow>
          if \<not> truthy (taxonomy.sciName tx) then False
          else if category tx = Some ''species'' then True
          else if category tx = Some ''subspecies'' then
            (let targetSpecies = replaceStr CHR ''_'' CHR '' '' (mammal_record.sciName selectedMammal)
             in case taxonomy.sciName tx of
                  None \<Rightarrow> False
                | Some s \<Rightarrow> startsWith s (targetSpecies @ '' ''))
          else False)"

text \<open>The callback of the filter in sampling mode.\<close>

definition speciesSpecificAny :: "media_item option \<Rightarrow> bool" where
  "speciesSpecificAny assetDetails =
     (case (case assetDetails of None \<Rightarrow> None | Some d \<Rightarrow> taxonomy d) of
        None \<Rightarrow> False
      | Some tx \<Rightarrow>
          if \<not> truthy (taxonomy.sciName tx) then False
          else if category tx = Some ''species'' then True
          else if category tx = Some ''subspecies'' then True
          else False)"

text \<open>
  The subspecies normalisation, written twice in the source: once for the look-up in the
  reference list and once for the name displayed.
\<close>

definition normalizedSciName :: "string option \<Rightarrow> string \<Rightarrow> string" where
  "normalizedSciName cat actualSciName =
     (if cat = Some ''subspecies'' then
        (let parts = splitStr CHR '' '' actualSciName
         in if length parts \<ge> 2 then parts ! 0 @ '' '' @ parts ! 1 else actualSciName)
      else actualSciName)"

definition displaySciName :: "string option \<Rightarrow> string \<Rightarrow> string" where
  "displaySciName cat actualSciName =
     (if cat = Some ''subspecies'' then
        (let parts = splitStr CHR '' '' actualSciName
         in if length parts \<ge> 2 then parts ! 0 @ '' '' @ parts ! 1 else actualSciName)
      else actualSciName)"

subsection \<open>The classifier as the specification words it\<close>

text \<open>Whitespace-separated tokens of a string.\<close>

definition isSpace :: "char \<Rightarrow> bool" where
  "isSpace c = (c \<in> set [CHR 0x09, CHR 0x0A, CHR 0x0B, CHR 0x0C, CHR 0x0D, CHR 0x20, CHR 0xA0])"

fun spec_tokens_from :: "string \<Rightarrow> string \<Rightarrow> string list" where
  "spec_tokens_from cur [] = (if cur = [] then [] else [cur])"
| "spec_tokens_from cur (c # cs) =
     (if isSpace c then (if cur = [] then [] else [cur]) @ spec_tokens_from [] cs
      else spec_tokens_from (cur @ [c]) cs)"

definition spec_tokens :: "string \<Rightarrow> string list" where
  "spec_tokens s = spec_tokens_from [] s"

text \<open>
  Usability in the specification's words, for an optional target name: species is usable;
  subspecies is usable without a target, and with a target when the normalised name equals
  the target or the name starts with the target and a space; anything else is not.
\<close>

definition spec_usable :: "string option \<Rightarrow> media_item option \<Rightarrow> bool" where
  "spec_usable target assetDetails =
     (case (case assetDetails of None \<Rightarrow> None | Some d \<Rightarrow> taxonomy d) of
        None \<Rightarrow> False
      | Some tx \<Rightarrow>
          (case taxonomy.sciName tx of
             None \<Rightarrow> False
           | Some s \<Rightarrow>
               s \<noteq> []
               \<and> (category tx = Some ''species''
                  \<or> (category tx = Some ''subspecies''
                      \<and> (case target of
                            None \<Rightarrow> True
                          | Some t \<Rightarrow>
                              normalizedSciName (category tx) s = t
                              \<or> startsWith s (t @ '' ''))))))"

section \<open>Post text\<close>

definition IUCN_STATUS_MAP :: "string \<Rightarrow> string option" where
  "IUCN_STATUS_MAP =
     map_of [(''EX'', ''Extinct''), (''EW'', ''Extinct in the Wild''),
             (''CR'', ''Critically Endangered''), (''EN'', ''Endangered''),
             (''VU'', ''Vulnerable''), (''NT'', ''Near Threatened''),
             (''LC'', ''Least Concern''), (''DD'', ''Data Deficient''),
             (''NE'', ''Not Evaluated'')]"

text \<open>
  \<open>`IUCN status: ${IUCN_STATUS_MAP[key] || 'Unknown'}`\<close>. The table is an object literal,
  so a key that names a member inherited from \<open>Object.prototype\<close> (\<open>constructor\<close>,
  \<open>toString\<close>, ...) finds that member in JavaScript; such keys are outside this model,
  which answers \<open>Unknown\<close> for every key that is not in the table.
\<close>

definition footerFor :: "string \<Rightarrow> string" where
  "footerFor key =
     ''IUCN status: '' @ (case IUCN_STATUS_MAP key of None \<Rightarrow> ''Unknown'' | Some label \<Rightarrow> label)"


text \<open>\<open>s.trim()\<close>, and \<open>xs.join(sep)\<close>.\<close>

definition trim :: "string \<Rightarrow> string" where
  "trim s = rev (dropWhile isSpace (rev (dropWhile isSpace s)))"

fun joinStr :: "string \<Rightarrow> string list \<Rightarrow> string" where
  "joinStr sep [] = []"
| "joinStr sep [x] = x"
| "joinStr sep (x # y # ys) = x @ sep @ joinStr sep (y # ys)"

text \<open>
  \<open>c.replace(/\s*\(Continent\)\s*/g, '')\<close>: every occurrence of \<open>(Continent)\<close> goes,
  together with the white space around it.
\<close>

function removeContinent :: "string \<Rightarrow> string" where
  "removeContinent [] = []"
| "removeContinent (c # cs) =
     (let rest = dropWhile isSpace (c # cs)
      in if startsWith rest ''(Continent)''
         then removeContinent (dropWhile isSpace (drop 11 rest))
         else c # removeContinent cs)"
  by pat_completeness auto
termination
proof (relation "measure length")
  show "wf (measure length)" by simp
next
  fix c :: char and cs rest :: string
  assume rest: "rest = dropWhile isSpace (c # cs)" and sw: "startsWith rest ''(Continent)''"
  have "length (dropWhile isSpace (drop 11 rest)) \<le> length (drop 11 rest)"
    by (rule length_dropWhile_le)
  moreover have "11 \<le> length rest"
  proof -
    define token where "token = ''(Continent)''"
    from sw have "take (length token) rest = token"
      unfolding startsWith_def token_def .
    then have "length token = min (length rest) (length token)"
      by (metis length_take)
    moreover have "length token = 11"
      by (simp add: token_def)
    ultimately show ?thesis
      by simp
  qed
  moreover have "length rest \<le> length (c # cs)"
    unfolding rest by (rule length_dropWhile_le)
  ultimately show "(dropWhile isSpace (drop 11 rest), c # cs) \<in> measure length"
    by simp
next
  fix c :: char and cs rest :: string
  show "(cs, c # cs) \<in> measure length" by simp
qed

text \<open>
  \<open>comName.replace(/\s+(Atlantic|Pacific|Eastern|Western|Northern|Southern)\s+/i, '')\<close>:
  the first region word standing between white space goes, with that white space.
  \<open>matchRegion s\<close> is what follows a match that starts at the head of \<open>s\<close>.
\<close>

definition matchRegion :: "string \<Rightarrow> string option" where
  "matchRegion s =
     (case s of
        [] \<Rightarrow> None
      | c # cs \<Rightarrow>
          if \<not> isSpace c then None
          else
            (let rest = dropWhile isSpace s
             in case find (\<lambda>word. startsWith (toLowerCase rest) word)
                       [''atlantic'', ''pacific'', ''eastern'', ''western'', ''northern'',
                        ''southern''] of
                  None \<Rightarrow> None
                | Some word \<Rightarrow>
                    (case drop (length word) rest of
                       [] \<Rightarrow> None
                     | d # ds \<Rightarrow> if isSpace d then Some (dropWhile isSpace ds) else None)))"

fun removeRegion :: "string \<Rightarrow> string" where
  "removeRegion [] = []"
| "removeRegion (c # cs) =
     (case matchRegion (c # cs) of
        Some after \<Rightarrow> after
      | None \<Rightarrow> c # removeRegion cs)"

text \<open>Lines 609 to 621 of \<open>generateMammalPost\<close>.\<close>

definition distributionInfo :: "mammal_record \<Rightarrow> string" where
  "distributionInfo postMammal =
     (if biogeographicRealm postMammal = [] then []
      else
        (let info = joinStr '', '' (map trim (splitStr CHR ''|'' (biogeographicRealm postMammal)))
         in if continentDistribution postMammal = [] then info
            else
              (let continents =
                     map (\<lambda>c. removeContinent (trim c))
                       (splitStr CHR ''|'' (continentDistribution postMammal))
               in if length continents \<le> 3
                  then info @ '' ('' @ joinStr '', '' continents @ '')''
                  else info)))"

text \<open>
  Lines 582 to 632: the text before the length check, for an asset whose taxonomy has a
  scientific name \<open>sci\<close>, a common name \<open>com\<close> and the category \<open>cat\<close>.
\<close>

definition mammalPostText :: "string option \<Rightarrow> string \<Rightarrow> string \<Rightarrow> mammal_record \<Rightarrow> string" where
  "mammalPostText cat sci com postMammal =
     (let displayComName =
            (if cat = Some ''subspecies'' then
               (if mainCommonName postMammal \<noteq> [] then mainCommonName postMammal
                else removeRegion com)
             else com);
          text0 = displayComName @ '' ('' @ displaySciName cat sci @ '')\<newline>\<newline>Family ''
                    @ mammal_record.family postMammal @ ''\<newline>'';
          info = distributionInfo postMammal;
          footer = footerFor (iucnStatus postMammal);
          text1 = (if info \<noteq> [] \<and> length info + length text0 + length footer < 280
                   then text0 @ ''Range: '' @ info @ ''\<newline>''
                   else text0)
      in if length text1 + length footer < 300 then text1 @ footer else text1)"

section \<open>\<open>generateBirdPost\<close>\<close>

text \<open>
  What a generator returns: the post text and the asset whose embed page is handed to
  the page-metadata fetcher (which never fails: it answers with defaults).
\<close>

record post =
  postText :: string
  embedAssetId :: int

definition noAssets :: "int list option \<Rightarrow> bool" where
  "noAssets assetIds' = (case assetIds' of None \<Rightarrow> True | Some ids \<Rightarrow> ids = [])"

function birdLoop ::
    "world \<Rightarrow> bird_record list \<Rightarrow> nat \<Rightarrow> int list option \<Rightarrow> bird_record option \<Rightarrow> state
       \<Rightarrow> (error + int list option \<times> bird_record option) \<times> state" where
  "birdLoop w birdRecords attempts assetIds' selectedBird st =
     (if attempts < 3 \<and> noAssets assetIds' then
        (let st1 = emit (Attempt (attempts + 1)) st
         in case getRandomBirdRecord w birdRecords st1 of
              (None, st2) \<Rightarrow> (Inl TypeError, st2)
            | (Some bird, st2) \<Rightarrow>
                (case searchMacaulayForTaxon w (Species_code_Cornell_Lab bird) False st2 of
                   (found, st3) \<Rightarrow>
                     (let ids = map_option fst found
                      in if \<not> noAssets ids then (Inr (ids, Some bird), st3)
                         else birdLoop w birdRecords (attempts + 1) ids (Some bird) st3)))
      else (Inr (assetIds', selectedBird), st))"
  by pat_completeness auto
termination
  by (relation "measure (\<lambda>(w, birdRecords, attempts, assetIds', selectedBird, st). 3 - attempts)")
     auto



section \<open>FallbackResolutionEngine: \<open>generateMammalPost\<close>\<close>

definition maxAttempts :: nat where
  "maxAttempts = 5"

text \<open>\<open>!searchResult || searchResult.assetIds.length === 0\<close>\<close>

definition isEmptyResult :: "macaulaySearchResult option \<Rightarrow> bool" where
  "isEmptyResult searchResult =
     (case searchResult of None \<Rightarrow> True | Some sr \<Rightarrow> assetIds sr = [])"

text \<open>Lines 358 to 434: the test-species branch.\<close>

definition resolveTestSpecies ::
    "world \<Rightarrow> mammal_record list \<Rightarrow> string \<Rightarrow> state
       \<Rightarrow> (error + macaulaySearchResult option \<times> mammal_record) \<times> state" where
  "resolveTestSpecies w mammalRecords testSpeciesSciName st =
     (case find (\<lambda>m. mammal_record.sciName m = testSpeciesSciName) mammalRecords of
        None \<Rightarrow> (Inl (TestSpeciesNotFound testSpeciesSciName), st)
      | Some selectedMammal \<Rightarrow>
          (case searchMacaulayByTaxonomy w
                  (replaceStr CHR ''_'' CHR '' '' (mammal_record.sciName selectedMammal))
                  SpeciesRank st of
             (searchResult, st1) \<Rightarrow>
               if isEmptyResult searchResult then
                 (case searchMacaulayByTaxonomy w (mammal_record.family selectedMammal)
                         FamilyRank st1 of
                    (familyResult, st2) \<Rightarrow>
                      (let narrowed =
                             (case familyResult of
                                None \<Rightarrow> None
                              | Some sr \<Rightarrow>
                                  (case getAssetDetails sr of
                                     None \<Rightarrow> Some sr
                                   | Some details \<Rightarrow>
                                       if assetIds sr = [] then Some sr
                                       else
                                         (let speciesSpecificAssets =
                                                filter (\<lambda>assetId'.
                                                    speciesSpecificForTarget selectedMammal
                                                      (details assetId'))
                                                  (assetIds sr)
                                          in if speciesSpecificAssets \<noteq> []
                                             then Some (sr\<lparr>assetIds := speciesSpecificAssets\<rparr>)
                                             else None)))
                       in if isEmptyResult narrowed
                          then (Inl (NoUsableMediaForTestSpecies testSpeciesSciName), st2)
                          else (Inr (narrowed, selectedMammal), st2)))
               else (Inr (searchResult, selectedMammal), st1)))"

text \<open>
  The end of a missed attempt (lines 513 to 517): the five-second wait, unless this was the
  last attempt.
\<close>

definition pause :: "nat \<Rightarrow> state \<Rightarrow> state" where
  "pause attempts st = (if attempts < maxAttempts then emit (Sleep 5000) st else st)"

text \<open>
  The body of the \<open>while\<close> loop (lines 439 to 518), \<open>attempts\<close> already incremented. The
  boolean says whether the body left the loop through \<open>break\<close>.
\<close>

definition samplingAttempt ::
    "world \<Rightarrow> mammal_record list \<Rightarrow> nat \<Rightarrow> state
       \<Rightarrow> (error + bool \<times> macaulaySearchResult option \<times> mammal_record) \<times> state" where
  "samplingAttempt w mammalRecords attempts st =
     (case getRandomMammalRecord w mammalRecords (emit (Attempt attempts) st) of
        (Inl e, st1) \<Rightarrow> (Inl e, st1)
      | (Inr selectedMammal, st1) \<Rightarrow>
          (case searchMacaulayByTaxonomy w
                  (replaceStr CHR ''_'' CHR '' '' (mammal_record.sciName selectedMammal))
                  SpeciesRank st1 of
             (searchResult, st2) \<Rightarrow>
               if \<not> isEmptyResult searchResult then (Inr (True, searchResult, selectedMammal), st2)
               else
                 (case searchMacaulayByTaxonomy w (mammal_record.family selectedMammal)
                         FamilyRank st2 of
                    (None, st3) \<Rightarrow> (Inr (False, None, selectedMammal), pause attempts st3)
                  | (Some sr, st3) \<Rightarrow>
                      (case getAssetDetails sr of
                         None \<Rightarrow> (Inr (False, Some sr, selectedMammal), pause attempts st3)
                       | Some details \<Rightarrow>
                           if assetIds sr = []
                           then (Inr (False, Some sr, selectedMammal), pause attempts st3)
                           else
                             (let speciesSpecificAssets =
                                    filter (\<lambda>assetId'. speciesSpecificAny (details assetId'))
                                      (assetIds sr)
                              in if speciesSpecificAssets \<noteq> []
                                 then (Inr (True, Some (sr\<lparr>assetIds := speciesSpecificAssets\<rparr>),
                                            selectedMammal), st3)
                                 else (Inr (False, None, selectedMammal),
                                       pause attempts st3))))))"

function samplingLoop ::
    "world \<Rightarrow> mammal_record list \<Rightarrow> nat \<Rightarrow> macaulaySearchResult option
       \<Rightarrow> mammal_record option \<Rightarrow> state
       \<Rightarrow> (error + macaulaySearchResult option \<times> mammal_record option) \<times> state" where
  "samplingLoop w mammalRecords attempts searchResult selectedMammal st =
     (if attempts < maxAttempts \<and> isEmptyResult searchResult then
        (case samplingAttempt w mammalRecords (attempts + 1) st of
           (Inl e, st') \<Rightarrow> (Inl e, st')
         | (Inr (left, searchResult', selectedMammal'), st') \<Rightarrow>
             if left then (Inr (searchResult', Some selectedMammal'), st')
             else samplingLoop w mammalRecords (attempts + 1) searchResult'
                    (Some selectedMammal') st')
      else (Inr (searchResult, selectedMammal), st))"
  by pat_completeness auto
termination
  by (relation "measure (\<lambda>(w, mammalRecords, attempts, searchResult, selectedMammal, st).
                    maxAttempts - attempts)")
     auto

text \<open>
  What \<open>generateMammalPost\<close> returns, together with the values it holds at that point:
  the taxonomy of the asset selected and the reference record the text was built from.
\<close>

record resolved_post = post +
  actualTaxonomy :: taxonomy
  postMammal :: mammal_record

text \<open>Lines 522 to 640: selection of the asset, its verification, and the text.\<close>

definition finishMammalPost ::
    "world \<Rightarrow> mammal_record list \<Rightarrow> macaulaySearchResult option \<Rightarrow> mammal_record option
       \<Rightarrow> state \<Rightarrow> (error + resolved_post) \<times> state" where
  "finishMammalPost w mammalRecords searchResult selectedMammal st =
     (case searchResult of
        None \<Rightarrow> (Inl (FailedAfterAttempts maxAttempts), st)
      | Some sr \<Rightarrow>
          if assetIds sr = [] then (Inl (FailedAfterAttempts maxAttempts), st)
          else
            (let (r, st1) = mathRandom w st;
                 randomAssetId = assetIds sr ! randomIndex r (length (assetIds sr));
                 found = (case getAssetDetails sr of
                            None \<Rightarrow> None
                          | Some details \<Rightarrow>
                              (case details randomAssetId of
                                 None \<Rightarrow> None
                               | Some assetDetails \<Rightarrow> taxonomy assetDetails))
             in if getAssetDetails sr \<noteq> None
                   \<and> (case found of
                        None \<Rightarrow> True
                      | Some tx \<Rightarrow> category tx \<noteq> Some ''species''
                                   \<and> category tx \<noteq> Some ''subspecies'')
                then (Inl (NotSpeciesSpecific
                             (case found of None \<Rightarrow> None | Some tx \<Rightarrow> category tx)), st1)
                else
                  (let chosen =
                         (case found of
                            None \<Rightarrow> selectedMammal
                          | Some tx \<Rightarrow>
                              (case taxonomy.sciName tx of
                                 None \<Rightarrow> selectedMammal
                               | Some sci \<Rightarrow>
                                   if sci = [] then selectedMammal
                                   else
                                     (case find (\<lambda>m. mammal_record.sciName m =
                                                   replaceStr CHR '' '' CHR ''_''
                                                     (normalizedSciName (category tx) sci))
                                             mammalRecords of
                                        None \<Rightarrow> selectedMammal
                                      | Some matchingMammal \<Rightarrow> Some matchingMammal)))
                   in case chosen of
                        None \<Rightarrow> (Inl TypeError, st1)
                      | Some pm \<Rightarrow>
                          (case found of
                             None \<Rightarrow> (Inl (NoSpeciesSpecificTaxonomy found), st1)
                           | Some tx \<Rightarrow>
                               if truthy (taxonomy.sciName tx) \<and> truthy (comName tx)
                                  \<and> (category tx = Some ''species''
                                     \<or> category tx = Some ''subspecies'')
                               then
                                 (let text' = mammalPostText (category tx)
                                                (case taxonomy.sciName tx of
                                                   None \<Rightarrow> [] | Some sci \<Rightarrow> sci)
                                                (case comName tx of
                                                   None \<Rightarrow> [] | Some com \<Rightarrow> com)
                                                pm
                                  in if length text' > 300 then (Inl TextExceedsLimit, st1)
                                     else (Inr \<lparr>postText = text', embedAssetId = randomAssetId,
                                                actualTaxonomy = tx, postMammal = pm\<rparr>, st1))
                               else (Inl (NoSpeciesSpecificTaxonomy found), st1)))))"

text \<open>
  Lines 352 to 520: the pool of candidate assets and the record selected, by the
  test-species branch or by the sampling loop. \<open>None\<close> or the empty string selects the
  sampling mode.
\<close>

definition resolvePool ::
    "world \<Rightarrow> mammal_record list \<Rightarrow> string option \<Rightarrow> state
       \<Rightarrow> (error + macaulaySearchResult option \<times> mammal_record option) \<times> state" where
  "resolvePool w mammalRecords testSpeciesSciName st =
     (if truthy testSpeciesSciName then
        (case resolveTestSpecies w mammalRecords
                (case testSpeciesSciName of None \<Rightarrow> [] | Some t \<Rightarrow> t) st of
           (Inl e, st1) \<Rightarrow> (Inl e, st1)
         | (Inr (searchResult, selectedMammal), st1) \<Rightarrow>
             (Inr (searchResult, Some selectedMammal), st1))
      else samplingLoop w mammalRecords 0 None None st)"

text \<open>\<open>generateMammalPost(testSpeciesSciName?)\<close>\<close>

definition generateMammalPost ::
    "world \<Rightarrow> string option \<Rightarrow> state \<Rightarrow> (error + resolved_post) \<times> state" where
  "generateMammalPost w testSpeciesSciName st =
     (case mammalCsv w of
        None \<Rightarrow> (Inl CsvNotFound, st)
      | Some mammalRecords \<Rightarrow>
          if mammalRecords = [] then (Inl NoRecords, st)
          else
            (case resolvePool w mammalRecords testSpeciesSciName st of
               (Inl e, st1) \<Rightarrow> (Inl e, st1)
             | (Inr (searchResult, selectedMammal), st1) \<Rightarrow>
                 finishMammalPost w mammalRecords searchResult selectedMammal st1))"

subsection \<open>The pacing of a run\<close>

text \<open>The attempt and delay events of a trace, in order.\<close>

definition paced :: "event \<Rightarrow> bool" where
  "paced e = (case e of Attempt n \<Rightarrow> True | Sleep ms \<Rightarrow> True | _ \<Rightarrow> False)"

definition pacing :: "event list \<Rightarrow> event list" where
  "pacing evs = filter paced evs"

text \<open>
  The pacing of a sampling loop all of whose attempts after the first \<open>attempts\<close> miss:
  every attempt but the last is followed by the five-second delay.
\<close>

definition missedSchedule :: "nat \<Rightarrow> event list" where
  "missedSchedule attempts =
     concat (map (\<lambda>k. if k < maxAttempts then [Attempt k, Sleep 5000] else [Attempt k])
               [attempts + 1 ..< maxAttempts + 1])"

subsection \<open>Attempts that end with an empty candidate pool\<close>

text \<open>
  The pool a family search leaves for an attempt is empty when the search returned
  nothing, or when none of its assets passes the classifier.
\<close>

definition familyPoolEmpty :: "macaulaySearchResult option \<Rightarrow> bool" where
  "familyPoolEmpty familyResult =
     (case familyResult of
        None \<Rightarrow> True
      | Some sr \<Rightarrow>
          (case getAssetDetails sr of
             None \<Rightarrow> assetIds sr = []
           | Some details \<Rightarrow>
               filter (\<lambda>assetId'. speciesSpecificAny (details assetId')) (assetIds sr) = []))"

text \<open>
  Attempt number \<open>attempts\<close>, begun in state \<open>st\<close>, ends with an empty candidate pool: a
  record is drawn, the species search for it finds nothing, and the pool of the family
  search is empty.
\<close>

definition attemptPoolEmpty :: "world \<Rightarrow> mammal_record list \<Rightarrow> nat \<Rightarrow> state \<Rightarrow> bool" where
  "attemptPoolEmpty w mammalRecords attempts st =
     (case getRandomMammalRecord w mammalRecords (emit (Attempt attempts) st) of
        (Inl e, st1) \<Rightarrow> False
      | (Inr selectedMammal, st1) \<Rightarrow>
          (case searchMacaulayByTaxonomy w
                  (replaceStr CHR ''_'' CHR '' '' (mammal_record.sciName selectedMammal))
                  SpeciesRank st1 of
             (speciesResult, st2) \<Rightarrow>
               isEmptyResult speciesResult
               \<and> familyPoolEmpty
                   (fst (searchMacaulayByTaxonomy w (mammal_record.family selectedMammal)
                           FamilyRank st2))))"

text \<open>
  The next \<open>n\<close> attempts after the first \<open>attempts\<close>, begun in state \<open>st\<close>, all end with an
  empty candidate pool; each attempt begins in the state the one before it left.
\<close>

fun attemptsAllEmpty ::
    "world \<Rightarrow> mammal_record list \<Rightarrow> nat \<Rightarrow> nat \<Rightarrow> state \<Rightarrow> bool" where
  "attemptsAllEmpty w mammalRecords 0 attempts st = True"
| "attemptsAllEmpty w mammalRecords (Suc n) attempts st =
     (attemptPoolEmpty w mammalRecords (attempts + 1) st
      \<and> attemptsAllEmpty w mammalRecords n (attempts + 1)
          (snd (samplingAttempt w mammalRecords (attempts + 1) st)))"

section \<open>Concrete data for the worked runs\<close>

definition initialState :: state where
  "initialState = \<lparr>randomCalls = 0, requests = 0, trace = []\<rparr>"

definition walrus :: mammal_record where
  "walrus = \<lparr>sciName = ''Odobenus_rosmarus'', mainCommonName = ''Walrus'',
              order = ''Carnivora'', family = ''Odobenidae'',
              continentDistribution = ''North America (Continent) | Europe (Continent)|Asia'',
              biogeographicRealm = ''Nearctic|Palearctic'', iucnStatus = ''VU'',
              distributionNotes = []\<rparr>"

definition houseMouse :: mammal_record where
  "houseMouse = \<lparr>sciName = ''Mus_musculus'', mainCommonName = ''House Mouse'',
                  order = ''Rodentia'', family = ''Muridae'',
                  continentDistribution = [], biogeographicRealm = [],
                  iucnStatus = ''LC'', distributionNotes = []\<rparr>"

definition tesia :: bird_record where
  "tesia = \<lparr>Order = ''Passeriformes'', Family = ''Cettiidae'',
             Family_English_name = ''Bush Warblers'', Scientific_name = ''Tesia everetti'',
             English_name_AviList = ''Russet-capped Tesia'', Range = ''Lesser Sundas'',
             IUCN_Red_List_Category = ''LC'', Species_code_Cornell_Lab = ''gybtes1''\<rparr>"

text \<open>Three results of a family search: a family-rank one, a carcass, a subspecies.\<close>

definition walrusItems :: "media_item list" where
  "walrusItems =
     [\<lparr>assetId = Some 1,
       taxonomy = Some \<lparr>taxonomy.sciName = Some ''Odobenidae'', comName = Some ''Walruses'',
                        category = Some ''family''\<rparr>,
       tags = NoTags\<rparr>,
      \<lparr>assetId = Some 2,
       taxonomy = Some \<lparr>taxonomy.sciName = Some ''Odobenus rosmarus divergens'',
                        comName = Some ''Walrus (Pacific)'', category = Some ''subspecies''\<rparr>,
       tags = TagList [TagStr ''beach'', TagStr ''Found DEAD'']\<rparr>,
      \<lparr>assetId = Some 3,
       taxonomy = Some \<lparr>taxonomy.sciName = Some ''Odobenus rosmarus divergens'',
                        comName = Some ''Walrus (Pacific)'', category = Some ''subspecies''\<rparr>,
       tags = TagString ''haul-out''\<rparr>]"

text \<open>A world in which every request fails.\<close>

definition silentWorld :: world where
  "silentWorld = \<lparr>random = (\<lambda>k. sampleOf 0 1),
                   taxonomyApi = (\<lambda>n q. TaxonomyFailure),
                   mediaApi = (\<lambda>n c b. MediaFailure),
                   birdCsv = Some [tesia],
                   mammalCsv = Some [walrus, houseMouse]\<rparr>"

text \<open>
  A world in which the species search finds nothing, the family search finds
  \<open>walrusItems\<close>, and the bird code \<open>gybtes1\<close> has one photograph.
\<close>

definition familyWorld :: world where
  "familyWorld =
     \<lparr>random = (\<lambda>k. sampleOf 0 1),
      taxonomyApi = (\<lambda>n q. if q = ''Odobenidae''
                            then TaxonomyArray [\<lparr>name = Some ''Walruses - Odobenidae'',
                                                 code = Some ''odoben1,family''\<rparr>]
                            else TaxonomyArray []),
      mediaApi = (\<lambda>n c b. if c = ''odoben1'' \<and> b then MediaArray walrusItems
                          else if c = ''gybtes1'' \<and> \<not> b
                            then MediaArray
                                   [\<lparr>assetId = Some 123,
                                     taxonomy = Some \<lparr>taxonomy.sciName = Some ''Tesia everetti'',
                                                      comName = Some ''Russet-capped Tesia'',
                                                      category = Some ''species''\<rparr>,
                                     tags = NoTags\<rparr>]
                          else MediaFailure),
      birdCsv = Some [tesia],
      mammalCsv = Some [walrus]\<rparr>"

text \<open>
  A world in which the species search finds nothing and the family search finds only the
  family-rank result, which the classifier rejects.
\<close>

definition familyRankWorld :: world where
  "familyRankWorld =
     \<lparr>random = (\<lambda>k. sampleOf 0 1),
      taxonomyApi = (\<lambda>n q. if q = ''Odobenidae''
                            then TaxonomyArray [\<lparr>name = Some ''Walruses - Odobenidae'',
                                                 code = Some ''odoben1,family''\<rparr>]
                            else TaxonomyArray []),
      mediaApi = (\<lambda>n c b. if c = ''odoben1'' \<and> b then MediaArray [walrusItems ! 0]
                          else MediaFailure),
      birdCsv = Some [tesia],
      mammalCsv = Some [walrus]\<rparr>"

text \<open>
  A world in which the species search itself succeeds, but its only asset carries a
  family-rank taxonomy.
\<close>

definition mislabelledWorld :: world where
  "mislabelledWorld =
     \<lparr>random = (\<lambda>k. sampleOf 0 1),
      taxonomyApi = (\<lambda>n q. if q = ''Odobenus rosmarus''
                            then TaxonomyArray [\<lparr>name = Some ''Walrus - Odobenus rosmarus'',
                                                 code = Some ''walrus,species''\<rparr>]
                            else TaxonomyArray []),
      mediaApi = (\<lambda>n c b. if c = ''walrus'' \<and> b then MediaArray [walrusItems ! 0]
                          else MediaFailure),
      birdCsv = Some [tesia],
      mammalCsv = Some [walrus]\<rparr>"

text \<open>What the two generators return in \<open>familyWorld\<close>.\<close>

definition walrusPost :: resolved_post where
  "walrusPost =
     \<lparr>postText = ''Walrus (Odobenus rosmarus)\<newline>\<newline>Family Odobenidae\<newline>Range: Nearctic, Palearctic (North America, Europe, Asia)\<newline>IUCN status: Vulnerable'',
      embedAssetId = 3,
      actualTaxonomy = \<lparr>taxonomy.sciName = Some ''Odobenus rosmarus divergens'',
                         comName = Some ''Walrus (Pacific)'', category = Some ''subspecies''\<rparr>,
      postMammal = walrus\<rparr>"


text \<open>A pool that holds only the family-rank result of \<open>walrusItems\<close>.\<close>

definition familyOnlyResult :: macaulaySearchResult where
  "familyOnlyResult =
     \<lparr>assetIds = [1], taxonomyLevel = ''family'', commonName = Some ''Walruses'',
      getAssetDetails = Some (\<lambda>assetId'. find (\<lambda>item. assetId item = Some assetId') walrusItems)\<rparr>"


section \<open>Properties of the string primitives\<close>

lemma startsWith_iff: "startsWith s p \<longleftrightarrow> (\<exists>post. s = p @ post)"
proof
  assume "startsWith s p"
  then have "s = p @ drop (length p) s"
    by (metis append_take_drop_id startsWith_def)
  then show "\<exists>post. s = p @ post" ..
next
  assume "\<exists>post. s = p @ post"
  then show "startsWith s p"
    by (auto simp: startsWith_def)
qed

lemma includes_iff: "includesStr s t \<longleftrightarrow> (\<exists>pre post. s = pre @ t @ post)"
proof (induction s)
  case Nil
  then show ?case by auto
next
  case (Cons c cs)
  show ?case
  proof
    assume "includesStr (c # cs) t"
    then consider "startsWith (c # cs) t" | "includesStr cs t" by auto
    then show "\<exists>pre post. c # cs = pre @ t @ post"
    proof cases
      case 1
      then obtain post where "c # cs = t @ post"
        by (auto simp: startsWith_iff)
      then have "c # cs = [] @ t @ post" by simp
      then show ?thesis by blast
    next
      case 2
      then obtain pre post where "cs = pre @ t @ post"
        using Cons.IH by auto
      then have "c # cs = (c # pre) @ t @ post" by simp
      then show ?thesis by blast
    qed
  next
    assume "\<exists>pre post. c # cs = pre @ t @ post"
    then obtain pre post where eq: "c # cs = pre @ t @ post" by auto
    show "includesStr (c # cs) t"
    proof (cases pre)
      case Nil
      with eq have "startsWith (c # cs) t"
        by (auto simp: startsWith_iff)
      then show ?thesis by simp
    next
      case (Cons p ps)
      with eq have "cs = ps @ t @ post" by simp
      then have "includesStr cs t"
        using Cons.IH by auto
      then show ?thesis by simp
    qed
  qed
qed

lemma includes_dash_space:
  "includesStr s ('' - '' @ t) \<Longrightarrow> includesStr s (''- '' @ t)"
proof -
  assume "includesStr s ('' - '' @ t)"
  then obtain pre post where "s = pre @ ('' - '' @ t) @ post"
    by (auto simp: includes_iff)
  then have "s = (pre @ '' '') @ (''- '' @ t) @ post" by simp
  then show ?thesis
    unfolding includes_iff by blast
qed

lemma scientificNameMatch_iff:
  "scientificNameMatch (toLowerCase searchTerm) item \<longleftrightarrow>
     (\<exists>n pre post. name item = Some n
        \<and> toLowerCase n = pre @ ''- '' @ toLowerCase searchTerm @ post)"
proof (cases "name item")
  case None
  then show ?thesis
    by (simp add: scientificNameMatch_def)
next
  case (Some n)
  have "scientificNameMatch (toLowerCase searchTerm) item
          \<longleftrightarrow> includesStr (toLowerCase n) (''- '' @ toLowerCase searchTerm)"
    using Some includes_dash_space [of "toLowerCase n" "toLowerCase searchTerm"]
    by (auto simp: scientificNameMatch_def Let_def)
  also have "\<dots> \<longleftrightarrow> (\<exists>pre post. toLowerCase n = pre @ ''- '' @ toLowerCase searchTerm @ post)"
    by (simp add: includes_iff)
  finally show ?thesis
    using Some by simp
qed

lemma hd_filter_find: "filter P xs \<noteq> [] \<Longrightarrow> Some (hd (filter P xs)) = find P xs"
  by (induction xs) auto

lemma termFollowsDash_code [code]:
  "termFollowsDash searchTerm searchType item \<longleftrightarrow>
     scientificNameMatch (toLowerCase searchTerm) item \<and> typeMatch searchType item"
  by (simp add: termFollowsDash_def scientificNameMatch_iff)

section \<open>Claims about TaxonomyMatcher\<close>

text \<open>
  C3, as stated, fails. The search term \<open>rosmarus\<close> occurs inside the scientific-name
  segment of the second candidate, whose code names the species rank, so the second
  candidate is the first one meeting priority 1 as the claim words it; the first
  candidate's segment does not contain the term. The source nevertheless returns the
  first candidate, through the priority-2 rule, because it looks for the term only
  directly after the dash.
\<close>

theorem C3_anywhere_counterexample:
  "\<not> spec_priority1 ''rosmarus'' SpeciesRank
       \<lparr>name = Some ''Harbor Seal - Phoca vitulina'', code = Some ''harsea,species''\<rparr>
   \<and> spec_priority1 ''rosmarus'' SpeciesRank
       \<lparr>name = Some ''Walrus - Odobenus rosmarus'', code = Some ''walrus,species''\<rparr>
   \<and> findBestTaxonomyMatch
       [\<lparr>name = Some ''Harbor Seal - Phoca vitulina'', code = Some ''harsea,species''\<rparr>,
        \<lparr>name = Some ''Walrus - Odobenus rosmarus'', code = Some ''walrus,species''\<rparr>]
       ''rosmarus'' SpeciesRank
     = Some \<lparr>name = Some ''Harbor Seal - Phoca vitulina'', code = Some ''harsea,species''\<rparr>"
  by code_simp

text \<open>
  C3, amended: whenever some candidate's lower-cased display name holds \<open>"- "\<close>
  immediately followed by the lower-cased search term, and that candidate's code contains
  \<open>","\<close> followed by the requested rank, \<open>findBestTaxonomyMatch\<close> returns the first such
  candidate of the sequence.
\<close>

theorem C3_first_term_after_dash:
  assumes "\<exists>c \<in> set taxonomyData. termFollowsDash searchTerm searchType c"
  shows "findBestTaxonomyMatch taxonomyData searchTerm searchType
           = find (termFollowsDash searchTerm searchType) taxonomyData
         \<and> (\<exists>c \<in> set taxonomyData.
               findBestTaxonomyMatch taxonomyData searchTerm searchType = Some c
               \<and> termFollowsDash searchTerm searchType c)"
proof -
  let ?P = "\<lambda>item. scientificNameMatch (toLowerCase searchTerm) item \<and> typeMatch searchType item"
  have same: "?P = termFollowsDash searchTerm searchType"
    by (rule ext) (simp add: termFollowsDash_code)
  from assms have ne: "filter ?P taxonomyData \<noteq> []"
    unfolding same by (auto simp: filter_empty_conv)
  then have "taxonomyData \<noteq> []" by auto
  with ne have "findBestTaxonomyMatch taxonomyData searchTerm searchType
                  = Some (hd (filter ?P taxonomyData))"
    by (simp add: findBestTaxonomyMatch_def Let_def)
  also have "\<dots> = find ?P taxonomyData"
    using ne by (rule hd_filter_find)
  finally have first: "findBestTaxonomyMatch taxonomyData searchTerm searchType
                  = find (termFollowsDash searchTerm searchType) taxonomyData"
    unfolding same .
  from assms obtain c where
    found: "find (termFollowsDash searchTerm searchType) taxonomyData = Some c"
    by (cases "find (termFollowsDash searchTerm searchType) taxonomyData")
       (auto simp: find_None_iff)
  then have "c \<in> set taxonomyData \<and> termFollowsDash searchTerm searchType c"
    by (auto simp: find_Some_iff)
  with first found show ?thesis
    by auto
qed

theorem C3_first_term_after_dash_witness:
  "(\<exists>c \<in> set [\<lparr>name = Some ''Harbor Seal - Phoca vitulina'', code = Some ''harsea,species''\<rparr>,
               \<lparr>name = Some ''Walrus - Odobenus rosmarus'', code = Some ''walrus,species''\<rparr>,
               \<lparr>name = Some ''Walrus (Pacific) - Odobenus rosmarus divergens'',
                 code = Some ''walrus2,species''\<rparr>].
      termFollowsDash ''Odobenus'' SpeciesRank c)
   \<and> findBestTaxonomyMatch
        [\<lparr>name = Some ''Harbor Seal - Phoca vitulina'', code = Some ''harsea,species''\<rparr>,
         \<lparr>name = Some ''Walrus - Odobenus rosmarus'', code = Some ''walrus,species''\<rparr>,
         \<lparr>name = Some ''Walrus (Pacific) - Odobenus rosmarus divergens'',
           code = Some ''walrus2,species''\<rparr>]
        ''Odobenus'' SpeciesRank
      = Some \<lparr>name = Some ''Walrus - Odobenus rosmarus'', code = Some ''walrus,species''\<rparr>"
proof -
  let ?L = "[\<lparr>name = Some ''Harbor Seal - Phoca vitulina'', code = Some ''harsea,species''\<rparr>,
             \<lparr>name = Some ''Walrus - Odobenus rosmarus'', code = Some ''walrus,species''\<rparr>,
             \<lparr>name = Some ''Walrus (Pacific) - Odobenus rosmarus divergens'',
               code = Some ''walrus2,species''\<rparr>]"
  have h: "\<exists>c \<in> set ?L. termFollowsDash ''Odobenus'' SpeciesRank c"
    by code_simp
  have v: "find (termFollowsDash ''Odobenus'' SpeciesRank) ?L
             = Some \<lparr>name = Some ''Walrus - Odobenus rosmarus'', code = Some ''walrus,species''\<rparr>"
    by code_simp
  from C3_first_term_after_dash [OF h] v h show ?thesis
    by simp
qed



lemma toLowerChar_eq_iff:
  assumes l: "97 \<le> (of_char l :: nat)" "(of_char l :: nat) \<le> 122"
  shows "toLowerChar c = l \<longleftrightarrow> c = l \<or> of_char c + 32 = (of_char l :: nat)"
proof (cases "(65 \<le> (of_char c :: nat) \<and> (of_char c :: nat) \<le> 90)
                \<or> (192 \<le> (of_char c :: nat) \<and> (of_char c :: nat) \<le> 222
                    \<and> (of_char c :: nat) \<noteq> 215)")
  case True
  then have small: "(of_char c :: nat) + 32 < 2 ^ 8" by auto
  have "toLowerChar c = l \<longleftrightarrow> char_of ((of_char c :: nat) + 32) = l"
    using True by (simp add: toLowerChar_def)
  also have "\<dots> \<longleftrightarrow> take_bit 8 ((of_char c :: nat) + 32) = of_char l"
    by (simp only: char_of_eq_iff)
  also have "\<dots> \<longleftrightarrow> (of_char c :: nat) + 32 = of_char l"
    using small by (simp only: take_bit_nat_eq_self)
  finally have "toLowerChar c = l \<longleftrightarrow> (of_char c :: nat) + 32 = of_char l" .
  moreover have "c \<noteq> l"
    using True l by auto
  ultimately show ?thesis by simp
next
  case False
  then have "toLowerChar c = c"
    by (auto simp: toLowerChar_def)
  moreover have "(of_char c :: nat) + 32 \<noteq> of_char l"
  proof
    assume "(of_char c :: nat) + 32 = of_char l"
    with l have "65 \<le> (of_char c :: nat) \<and> (of_char c :: nat) \<le> 90" by linarith
    with False show False by simp
  qed
  ultimately show ?thesis by auto
qed

lemma shifted_of_char:
  assumes "(of_char u :: nat) + 32 = of_char l"
  shows "(of_char c :: nat) + 32 = of_char l \<longleftrightarrow> c = u"
proof -
  have "(of_char c :: nat) + 32 = of_char l \<longleftrightarrow> (of_char c :: nat) = of_char u"
    using assms by linarith
  then show ?thesis
    by (simp only: of_char_eq_iff)
qed

lemma toLowerChar_d: "toLowerChar c = CHR ''d'' \<longleftrightarrow> c = CHR ''d'' \<or> c = CHR ''D''"
proof -
  have r: "97 \<le> (of_char CHR ''d'' :: nat)" "(of_char CHR ''d'' :: nat) \<le> 122"
    by simp_all
  have u: "(of_char CHR ''D'' :: nat) + 32 = of_char CHR ''d''"
    by simp
  show ?thesis
    by (simp only: toLowerChar_eq_iff [OF r] shifted_of_char [OF u])
qed

lemma toLowerChar_e: "toLowerChar c = CHR ''e'' \<longleftrightarrow> c = CHR ''e'' \<or> c = CHR ''E''"
proof -
  have r: "97 \<le> (of_char CHR ''e'' :: nat)" "(of_char CHR ''e'' :: nat) \<le> 122"
    by simp_all
  have u: "(of_char CHR ''E'' :: nat) + 32 = of_char CHR ''e''"
    by simp
  show ?thesis
    by (simp only: toLowerChar_eq_iff [OF r] shifted_of_char [OF u])
qed

lemma toLowerChar_a: "toLowerChar c = CHR ''a'' \<longleftrightarrow> c = CHR ''a'' \<or> c = CHR ''A''"
proof -
  have r: "97 \<le> (of_char CHR ''a'' :: nat)" "(of_char CHR ''a'' :: nat) \<le> 122"
    by simp_all
  have u: "(of_char CHR ''A'' :: nat) + 32 = of_char CHR ''a''"
    by simp
  show ?thesis
    by (simp only: toLowerChar_eq_iff [OF r] shifted_of_char [OF u])
qed

lemma map4:
  assumes "map f m = [a, b, c, d]"
  shows "\<exists>c1 c2 c3 c4. m = [c1, c2, c3, c4] \<and> f c1 = a \<and> f c2 = b \<and> f c3 = c \<and> f c4 = d"
proof -
  from assms obtain c1 m1 where "m = c1 # m1" "f c1 = a" "map f m1 = [b, c, d]"
    by (cases m) auto
  moreover from this obtain c2 m2 where "m1 = c2 # m2" "f c2 = b" "map f m2 = [c, d]"
    by (cases m1) auto
  moreover from this obtain c3 m3 where "m2 = c3 # m3" "f c3 = c" "map f m3 = [d]"
    by (cases m2) auto
  moreover from this obtain c4 where "m3 = [c4]" "f c4 = d"
    by (cases m3) auto
  ultimately show ?thesis by simp
qed


lemma map_eq_mid:
  assumes "map f s = pre @ mid @ post"
  shows "\<exists>p m q. s = p @ m @ q \<and> map f m = mid"
proof -
  from assms have "\<exists>p r. s = p @ r \<and> pre = map f p \<and> mid @ post = map f r"
    by (simp only: map_eq_append_conv)
  then obtain p r where p: "s = p @ r" and "map f r = mid @ post"
    by auto
  then have "\<exists>m q. r = m @ q \<and> mid = map f m \<and> post = map f q"
    by (simp only: map_eq_append_conv)
  then obtain m q where r: "r = m @ q" and m: "map f m = mid"
    by auto
  from p r m show ?thesis by blast
qed

lemma dead_fwd:
  assumes "includesStr (toLowerCase s) ''dead''"
  shows "spec_containsDead s"
proof -
  from assms have "\<exists>pre post. map toLowerChar s = pre @ ''dead'' @ post"
    by (simp only: includes_iff toLowerCase_def)
  then obtain pre post where "map toLowerChar s = pre @ ''dead'' @ post"
    by (elim exE)
  from map_eq_mid [OF this]
  obtain p m q where s: "s = p @ m @ q" and m: "map toLowerChar m = ''dead''"
    by (elim exE conjE)
  from map4 [OF m] obtain c1 c2 c3 c4 where m4: "m = [c1, c2, c3, c4]"
    and l: "toLowerChar c1 = CHR ''d''" "toLowerChar c2 = CHR ''e''"
        "toLowerChar c3 = CHR ''a''" "toLowerChar c4 = CHR ''d''"
    by (elim exE conjE)
  from l(1) have c1: "c1 \<in> {CHR ''d'', CHR ''D''}"
    unfolding toLowerChar_d by simp
  from l(2) have c2: "c2 \<in> {CHR ''e'', CHR ''E''}"
    unfolding toLowerChar_e by simp
  from l(3) have c3: "c3 \<in> {CHR ''a'', CHR ''A''}"
    unfolding toLowerChar_a by simp
  from l(4) have c4: "c4 \<in> {CHR ''d'', CHR ''D''}"
    unfolding toLowerChar_d by simp
  from s m4 have "s = p @ [c1, c2, c3, c4] @ q" by simp
  with c1 c2 c3 c4 show ?thesis
    unfolding spec_containsDead_def by (intro exI conjI)
qed

lemma dead_bwd:
  assumes "spec_containsDead s"
  shows "includesStr (toLowerCase s) ''dead''"
proof -
  from assms obtain pre c1 c2 c3 c4 post where s: "s = pre @ [c1, c2, c3, c4] @ post"
    and c: "c1 \<in> {CHR ''d'', CHR ''D''}" "c2 \<in> {CHR ''e'', CHR ''E''}"
           "c3 \<in> {CHR ''a'', CHR ''A''}" "c4 \<in> {CHR ''d'', CHR ''D''}"
    unfolding spec_containsDead_def by (elim exE conjE)
  from c(1) have l1: "toLowerChar c1 = CHR ''d''"
    unfolding toLowerChar_d by simp
  from c(2) have l2: "toLowerChar c2 = CHR ''e''"
    unfolding toLowerChar_e by simp
  from c(3) have l3: "toLowerChar c3 = CHR ''a''"
    unfolding toLowerChar_a by simp
  from c(4) have l4: "toLowerChar c4 = CHR ''d''"
    unfolding toLowerChar_d by simp
  from l1 l2 l3 l4 have "map toLowerChar [c1, c2, c3, c4] = ''dead''" by simp
  with s have "toLowerCase s = map toLowerChar pre @ ''dead'' @ map toLowerChar post"
    by (simp add: toLowerCase_def)
  then have "\<exists>pre' post'. toLowerCase s = pre' @ ''dead'' @ post'"
    by (intro exI)
  then show ?thesis
    by (simp only: includes_iff)
qed

lemma toLowerCase_dead: "includesStr (toLowerCase s) ''dead'' \<longleftrightarrow> spec_containsDead s"
  using dead_fwd dead_bwd by (rule iffI)

lemma spec_containsDead_code [code]:
  "spec_containsDead s = includesStr (toLowerCase s) ''dead''"
  by (simp only: toLowerCase_dead)

lemma someDead_spec:
  "someDead ts = Some b \<Longrightarrow> b \<longleftrightarrow> (\<exists>s. TagStr s \<in> set ts \<and> spec_containsDead s)"
  by (induction ts arbitrary: b rule: someDead.induct)
     (auto simp: toLowerCase_dead split: if_splits)

lemma notTaggedDead_spec:
  "notTaggedDead item = Some keep \<Longrightarrow> keep \<longleftrightarrow> \<not> spec_taggedDead item"
  by (auto simp: spec_taggedDead_def toLowerCase_dead dest: someDead_spec
           split: tags_field.splits)

lemma filterDead_spec:
  "filterDead items = Some kept \<Longrightarrow> kept = filter (\<lambda>item. \<not> spec_taggedDead item) items"
proof (induction items arbitrary: kept)
  case Nil
  then show ?case by simp
next
  case (Cons item items)
  from Cons.prems obtain keep kept' where
    k: "notTaggedDead item = Some keep" and r: "filterDead items = Some kept'"
    and kept: "kept = (if keep then item # kept' else kept')"
    by (auto simp del: notTaggedDead.simps split: option.splits)
  from k have "keep \<longleftrightarrow> \<not> spec_taggedDead item"
    by (rule notTaggedDead_spec)
  moreover from r have "kept' = filter (\<lambda>item. \<not> spec_taggedDead item) items"
    by (rule Cons.IH)
  ultimately show ?case
    using kept by simp
qed

lemma someDead_total: "TagOther \<notin> set ts \<Longrightarrow> \<exists>b. someDead ts = Some b"
  by (induction ts rule: someDead.induct) auto

lemma notTaggedDead_total: "stringTags item \<Longrightarrow> \<exists>keep. notTaggedDead item = Some keep"
  using someDead_total [of "case tags item of TagList ts \<Rightarrow> ts | _ \<Rightarrow> []"]
  by (auto simp: stringTags_def split: tags_field.splits)

lemma filterDead_total:
  "\<forall>item \<in> set items. stringTags item \<Longrightarrow> \<exists>kept. filterDead items = Some kept"
proof (induction items)
  case Nil
  then show ?case by simp
next
  case (Cons item items)
  then obtain keep kept where "notTaggedDead item = Some keep" "filterDead items = Some kept"
    using notTaggedDead_total [of item] by auto
  then show ?case
    by (simp del: notTaggedDead.simps)
qed


lemma spec_taggedDead_code [code]:
  "spec_taggedDead item =
     (case tags item of
        TagList ts \<Rightarrow> list_ex (\<lambda>t. case t of TagStr s \<Rightarrow> spec_containsDead s | TagOther \<Rightarrow> False) ts
      | TagString s \<Rightarrow> spec_containsDead s
      | _ \<Rightarrow> False)"
proof (cases "tags item")
  case (TagList ts)
  have "(\<exists>s. TagStr s \<in> set ts \<and> spec_containsDead s)
          \<longleftrightarrow> list_ex (\<lambda>t. case t of TagStr s \<Rightarrow> spec_containsDead s | TagOther \<Rightarrow> False) ts"
  proof (induction ts)
    case Nil
    then show ?case by simp
  next
    case (Cons t ts)
    then show ?case by (cases t) auto
  qed
  with TagList show ?thesis
    by (simp add: spec_taggedDead_def)
qed (simp_all add: spec_taggedDead_def)

lemma find_assetId:
  "find (\<lambda>item. assetId item = Some i) xs = Some item
     \<Longrightarrow> item \<in> set xs \<and> assetId item = Some i"
  by (induction xs) (auto split: if_splits)

lemma find_assetId_present:
  "item \<in> set xs \<Longrightarrow> assetId item = Some i
     \<Longrightarrow> find (\<lambda>item. assetId item = Some i) xs \<noteq> None"
  by (induction xs) auto

lemma numeric_ids:
  "i \<in> set (map the (filter (\<lambda>id. id \<noteq> None) (map assetId xs)))
     \<longleftrightarrow> (\<exists>item \<in> set xs. assetId item = Some i)"
  by (induction xs) auto

text \<open>
  C1: when the response is an array, whatever \<open>searchMacaulayForTaxon\<close> returns holds no
  result whose tag field, a list or a single string, contains \<open>dead\<close> in any case: the
  identifiers returned are exactly those of the results not so tagged, every record the
  look-up hands out is one of those results, and every identifier returned can be looked
  up. A result without a tag field is among them. When every element of every tag array
  is a string, the call does return.
\<close>

theorem C1_dead_tagged_never_returned:
  assumes resp: "mediaApi w (requests st) taxonCode includeChildTaxa = MediaArray jsonData"
  shows "(\<forall>ids details st'.
            searchMacaulayForTaxon w taxonCode includeChildTaxa st = (Some (ids, details), st')
            \<longrightarrow> (\<forall>i. i \<in> set ids \<longleftrightarrow>
                       (\<exists>item \<in> set jsonData. assetId item = Some i \<and> \<not> spec_taggedDead item))
              \<and> (\<forall>i item. details i = Some item \<longrightarrow>
                       item \<in> set jsonData \<and> assetId item = Some i \<and> \<not> spec_taggedDead item)
              \<and> (\<forall>i \<in> set ids. details i \<noteq> None)
              \<and> (\<forall>item \<in> set jsonData. \<forall>i. tags item = NoTags \<and> assetId item = Some i
                       \<longrightarrow> i \<in> set ids \<and> details i \<noteq> None))
         \<and> ((\<forall>item \<in> set jsonData. stringTags item)
              \<longrightarrow> (\<exists>ids details st'.
                     searchMacaulayForTaxon w taxonCode includeChildTaxa st
                       = (Some (ids, details), st')))"
proof (rule conjI)
  show "\<forall>ids details st'.
          searchMacaulayForTaxon w taxonCode includeChildTaxa st = (Some (ids, details), st')
          \<longrightarrow> (\<forall>i. i \<in> set ids \<longleftrightarrow>
                     (\<exists>item \<in> set jsonData. assetId item = Some i \<and> \<not> spec_taggedDead item))
            \<and> (\<forall>i item. details i = Some item \<longrightarrow>
                     item \<in> set jsonData \<and> assetId item = Some i \<and> \<not> spec_taggedDead item)
            \<and> (\<forall>i \<in> set ids. details i \<noteq> None)
            \<and> (\<forall>item \<in> set jsonData. \<forall>i. tags item = NoTags \<and> assetId item = Some i
                     \<longrightarrow> i \<in> set ids \<and> details i \<noteq> None)"
  proof (intro allI impI)
    fix ids details st'
    assume run: "searchMacaulayForTaxon w taxonCode includeChildTaxa st
                   = (Some (ids, details), st')"
    let ?kept = "filter (\<lambda>item. \<not> spec_taggedDead item) jsonData"
    from run resp obtain filteredResults where f: "filterDead jsonData = Some filteredResults"
      and ids: "ids = map the (filter (\<lambda>id. id \<noteq> None) (map assetId filteredResults))"
      and details: "details = (\<lambda>i. find (\<lambda>item. assetId item = Some i) filteredResults)"
      by (auto simp: searchMacaulayForTaxon_def Let_def split: option.splits)
    from f have kept: "filteredResults = ?kept"
      by (rule filterDead_spec)
    have pool: "\<forall>i. i \<in> set ids \<longleftrightarrow>
                (\<exists>item \<in> set jsonData. assetId item = Some i \<and> \<not> spec_taggedDead item)"
      unfolding ids kept numeric_ids by auto
    have look: "\<forall>i item. details i = Some item \<longrightarrow>
                item \<in> set jsonData \<and> assetId item = Some i \<and> \<not> spec_taggedDead item"
    proof (intro allI impI)
      fix i item
      assume "details i = Some item"
      then have "item \<in> set ?kept \<and> assetId item = Some i"
        unfolding details kept by (rule find_assetId)
      then show "item \<in> set jsonData \<and> assetId item = Some i \<and> \<not> spec_taggedDead item"
        by simp
    qed
    have present: "\<forall>i \<in> set ids. details i \<noteq> None"
    proof
      fix i assume "i \<in> set ids"
      then obtain item where "item \<in> set ?kept" "assetId item = Some i"
        unfolding ids kept numeric_ids by auto
      then show "details i \<noteq> None"
        unfolding details kept by (rule find_assetId_present)
    qed
    have untagged: "\<forall>item \<in> set jsonData. \<forall>i. tags item = NoTags \<and> assetId item = Some i
            \<longrightarrow> i \<in> set ids \<and> details i \<noteq> None"
    proof (intro ballI allI impI)
      fix item i
      assume item: "item \<in> set jsonData" and t: "tags item = NoTags \<and> assetId item = Some i"
      then have "\<not> spec_taggedDead item"
        by (simp add: spec_taggedDead_def)
      with item t have "i \<in> set ids"
        using pool by auto
      with present show "i \<in> set ids \<and> details i \<noteq> None"
        by auto
    qed
    from pool look present untagged
    show "(\<forall>i. i \<in> set ids \<longleftrightarrow>
                     (\<exists>item \<in> set jsonData. assetId item = Some i \<and> \<not> spec_taggedDead item))
            \<and> (\<forall>i item. details i = Some item \<longrightarrow>
                     item \<in> set jsonData \<and> assetId item = Some i \<and> \<not> spec_taggedDead item)
            \<and> (\<forall>i \<in> set ids. details i \<noteq> None)
            \<and> (\<forall>item \<in> set jsonData. \<forall>i. tags item = NoTags \<and> assetId item = Some i
                     \<longrightarrow> i \<in> set ids \<and> details i \<noteq> None)"
      by (intro conjI)
  qed
next
  show "(\<forall>item \<in> set jsonData. stringTags item)
          \<longrightarrow> (\<exists>ids details st'.
                 searchMacaulayForTaxon w taxonCode includeChildTaxa st
                   = (Some (ids, details), st'))"
  proof
    assume "\<forall>item \<in> set jsonData. stringTags item"
    then obtain kept where "filterDead jsonData = Some kept"
      using filterDead_total by blast
    with resp show "\<exists>ids details st'.
        searchMacaulayForTaxon w taxonCode includeChildTaxa st = (Some (ids, details), st')"
      by (simp add: searchMacaulayForTaxon_def Let_def)
  qed
qed

theorem C1_dead_tagged_never_returned_witness:
  "mediaApi familyWorld (requests initialState) ''odoben1'' True = MediaArray walrusItems
   \<and> spec_taggedDead (walrusItems ! 1)
   \<and> assetId (walrusItems ! 1) = Some 2
   \<and> (\<exists>ids details st'.
         searchMacaulayForTaxon familyWorld ''odoben1'' True initialState
           = (Some (ids, details), st')
         \<and> 1 \<in> set ids \<and> 2 \<notin> set ids \<and> 3 \<in> set ids \<and> details 2 = None)"
proof -
  have resp: "mediaApi familyWorld (requests initialState) ''odoben1'' True
                = MediaArray walrusItems"
    by (simp add: familyWorld_def)
  have strings: "\<forall>item \<in> set walrusItems. stringTags item"
    by code_simp
  have dead: "spec_taggedDead (walrusItems ! 1)" and id2: "assetId (walrusItems ! 1) = Some 2"
    by code_simp+
  have alive: "\<exists>item \<in> set walrusItems. assetId item = Some 1 \<and> \<not> spec_taggedDead item"
              "\<exists>item \<in> set walrusItems. assetId item = Some 3 \<and> \<not> spec_taggedDead item"
    by code_simp+
  have only: "\<not> (\<exists>item \<in> set walrusItems. assetId item = Some 2 \<and> \<not> spec_taggedDead item)"
    by code_simp
  note c1 = C1_dead_tagged_never_returned [OF resp]
  from c1 strings obtain ids details st' where
    run: "searchMacaulayForTaxon familyWorld ''odoben1'' True initialState
            = (Some (ids, details), st')"
    by (elim conjE impE exE)
  from c1 have "\<forall>ids details st'.
          searchMacaulayForTaxon familyWorld ''odoben1'' True initialState
            = (Some (ids, details), st')
          \<longrightarrow> (\<forall>i. i \<in> set ids \<longleftrightarrow>
                     (\<exists>item \<in> set walrusItems. assetId item = Some i \<and> \<not> spec_taggedDead item))
            \<and> (\<forall>i item. details i = Some item \<longrightarrow>
                     item \<in> set walrusItems \<and> assetId item = Some i \<and> \<not> spec_taggedDead item)
            \<and> (\<forall>i \<in> set ids. details i \<noteq> None)
            \<and> (\<forall>item \<in> set walrusItems. \<forall>i. tags item = NoTags \<and> assetId item = Some i
                     \<longrightarrow> i \<in> set ids \<and> details i \<noteq> None)"
    by (rule conjunct1)
  then have returned:
       "(\<forall>i. i \<in> set ids \<longleftrightarrow>
                     (\<exists>item \<in> set walrusItems. assetId item = Some i \<and> \<not> spec_taggedDead item))
            \<and> (\<forall>i item. details i = Some item \<longrightarrow>
                     item \<in> set walrusItems \<and> assetId item = Some i \<and> \<not> spec_taggedDead item)
            \<and> (\<forall>i \<in> set ids. details i \<noteq> None)
            \<and> (\<forall>item \<in> set walrusItems. \<forall>i. tags item = NoTags \<and> assetId item = Some i
                     \<longrightarrow> i \<in> set ids \<and> details i \<noteq> None)"
    using run by (elim allE impE)
  then have pool: "\<forall>i. i \<in> set ids \<longleftrightarrow>
                (\<exists>item \<in> set walrusItems. assetId item = Some i \<and> \<not> spec_taggedDead item)"
    by (rule conjunct1)
  from returned have look: "\<forall>i item. details i = Some item \<longrightarrow>
                item \<in> set walrusItems \<and> assetId item = Some i \<and> \<not> spec_taggedDead item"
    by (elim conjE)
  from pool alive only have in_out: "1 \<in> set ids" "2 \<notin> set ids" "3 \<in> set ids"
    by simp_all
  have "details 2 = None"
  proof (cases "details 2")
    case None
    then show ?thesis .
  next
    case (Some item)
    with look have "item \<in> set walrusItems \<and> assetId item = Some 2 \<and> \<not> spec_taggedDead item"
      by simp
    with only show ?thesis by auto
  qed
  with resp dead id2 run in_out show ?thesis
    by (intro conjI exI)
qed

section \<open>Claims about AssetTaxonomyClassifier\<close>

lemma splitStr_not_Nil: "splitStr sep s \<noteq> []"
  by (induction s) (auto split: list.splits)

lemma splitStr_first:
  "sep \<notin> set a \<Longrightarrow> splitStr sep (a @ sep # r) = a # splitStr sep r"
  by (induction a) (auto split: list.splits)

text \<open>
  C5, as stated, fails. A result of rank subspecies whose scientific name is the target
  itself has a normalised name equal to the target, so the claim calls it usable; the
  target-pinned filter of the source rejects it, because it asks for the target followed
  by a space.
\<close>

theorem C5_name_equal_to_target_counterexample:
  "spec_usable (Some (replaceStr CHR ''_'' CHR '' '' (mammal_record.sciName walrus)))
     (Some \<lparr>assetId = Some 7,
            taxonomy = Some \<lparr>taxonomy.sciName = Some ''Odobenus rosmarus'',
                             comName = Some ''Walrus'', category = Some ''subspecies''\<rparr>,
            tags = NoTags\<rparr>)
   \<and> \<not> speciesSpecificForTarget walrus
     (Some \<lparr>assetId = Some 7,
            taxonomy = Some \<lparr>taxonomy.sciName = Some ''Odobenus rosmarus'',
                             comName = Some ''Walrus'', category = Some ''subspecies''\<rparr>,
            tags = NoTags\<rparr>)"
  by code_simp

text \<open>
  C5, amended: a result is usable exactly when its taxonomy and a non-empty scientific
  name are present and its rank is species, or its rank is subspecies and, in the
  target-pinned filter, its scientific name starts with the target followed by a space
  (in the filter without a target, any subspecies). All other ranks and results without
  taxonomy are unusable.
\<close>

theorem C5_usability:
  "(speciesSpecificForTarget selectedMammal assetDetails \<longleftrightarrow>
      (\<exists>item tx s. assetDetails = Some item \<and> taxonomy item = Some tx
          \<and> taxonomy.sciName tx = Some s \<and> s \<noteq> []
          \<and> (category tx = Some ''species''
              \<or> category tx = Some ''subspecies''
                \<and> (\<exists>rest. s = replaceStr CHR ''_'' CHR '' ''
                                  (mammal_record.sciName selectedMammal) @ '' '' @ rest))))
   \<and> (speciesSpecificAny assetDetails \<longleftrightarrow>
      (\<exists>item tx s. assetDetails = Some item \<and> taxonomy item = Some tx
          \<and> taxonomy.sciName tx = Some s \<and> s \<noteq> []
          \<and> (category tx = Some ''species'' \<or> category tx = Some ''subspecies'')))"
proof (cases assetDetails)
  case None
  then show ?thesis
    by (simp add: speciesSpecificForTarget_def speciesSpecificAny_def)
next
  case (Some item)
  show ?thesis
  proof (cases "taxonomy item")
    case None
    with Some show ?thesis
      by (simp add: speciesSpecificForTarget_def speciesSpecificAny_def)
  next
    case tx: (Some tx)
    show ?thesis
    proof (cases "taxonomy.sciName tx")
      case None
      with Some tx show ?thesis
        by (simp add: speciesSpecificForTarget_def speciesSpecificAny_def)
    next
      case s: (Some s)
      have sw: "startsWith s (t @ '' '') \<longleftrightarrow> (\<exists>rest. s = t @ '' '' @ rest)" for t
        by (simp add: startsWith_iff)
      from Some tx s show ?thesis
        by (simp add: speciesSpecificForTarget_def speciesSpecificAny_def sw del: append.simps)
    qed
  qed
qed

text \<open>
  C6, as stated, fails. The name below has three tokens separated by white space, the
  first two by two spaces; the source splits at every single space, so the second part is
  empty and the normalised name is the genus followed by a space.
\<close>

theorem C6_double_space_counterexample:
  "spec_tokens ''Odobenus  rosmarus divergens'' = [''Odobenus'', ''rosmarus'', ''divergens'']
   \<and> normalizedSciName (Some ''subspecies'') ''Odobenus  rosmarus divergens'' = ''Odobenus ''
   \<and> displaySciName (Some ''subspecies'') ''Odobenus  rosmarus divergens'' = ''Odobenus ''
   \<and> normalizedSciName (Some ''subspecies'') ''Odobenus  rosmarus divergens''
       \<noteq> ''Odobenus rosmarus''"
  by code_simp

text \<open>
  C6, amended: for rank subspecies and a scientific name made of a genus, one space, a
  species epithet, one space and anything more, where genus and epithet hold no space,
  the name normalised for the reference look-up and the name displayed are both the
  genus, one space and the epithet; the look-up key is that name with its space replaced
  by an underscore.
\<close>

theorem C6_trinomial_to_binomial:
  assumes "CHR '' '' \<notin> set genus" and "CHR '' '' \<notin> set epithet"
  shows "normalizedSciName (Some ''subspecies'') (genus @ '' '' @ epithet @ '' '' @ trailing)
           = genus @ '' '' @ epithet
         \<and> displaySciName (Some ''subspecies'') (genus @ '' '' @ epithet @ '' '' @ trailing)
           = genus @ '' '' @ epithet
         \<and> replaceStr CHR '' '' CHR ''_''
             (normalizedSciName (Some ''subspecies'') (genus @ '' '' @ epithet @ '' '' @ trailing))
           = genus @ ''_'' @ epithet"
proof -
  have "splitStr CHR '' '' (genus @ '' '' @ epithet @ '' '' @ trailing)
          = genus # splitStr CHR '' '' (epithet @ '' '' @ trailing)"
    using assms(1) splitStr_first [of "CHR '' ''" genus] by simp
  also have "splitStr CHR '' '' (epithet @ '' '' @ trailing) = epithet # splitStr CHR '' '' trailing"
    using assms(2) splitStr_first [of "CHR '' ''" epithet] by simp
  finally have parts: "splitStr CHR '' '' (genus @ '' '' @ epithet @ '' '' @ trailing)
          = genus # epithet # splitStr CHR '' '' trailing" .
  have n: "normalizedSciName (Some ''subspecies'') (genus @ '' '' @ epithet @ '' '' @ trailing)
           = genus @ '' '' @ epithet"
    unfolding normalizedSciName_def Let_def parts by simp
  have d: "displaySciName (Some ''subspecies'') (genus @ '' '' @ epithet @ '' '' @ trailing)
           = genus @ '' '' @ epithet"
    unfolding displaySciName_def Let_def parts by simp
  have r: "replaceStr CHR '' '' CHR ''_'' (genus @ '' '' @ epithet) = genus @ ''_'' @ epithet"
    using assms(1) by (induction genus) auto
  from n d r show ?thesis
    by simp
qed

theorem C6_trinomial_to_binomial_witness:
  "CHR '' '' \<notin> set ''Odobenus'' \<and> CHR '' '' \<notin> set ''rosmarus''
   \<and> normalizedSciName (Some ''subspecies'') ''Odobenus rosmarus divergens''
       = ''Odobenus rosmarus''
   \<and> displaySciName (Some ''subspecies'') ''Odobenus rosmarus divergens''
       = ''Odobenus rosmarus''
   \<and> replaceStr CHR '' '' CHR ''_''
        (normalizedSciName (Some ''subspecies'') ''Odobenus rosmarus divergens'')
       = ''Odobenus_rosmarus''"
proof -
  have g: "CHR '' '' \<notin> set ''Odobenus''" and e: "CHR '' '' \<notin> set ''rosmarus''"
    by simp_all
  from C6_trinomial_to_binomial [OF g e, of "''divergens''"] g e show ?thesis
    by simp
qed

text \<open>
  C10: in both family-result filters the decision depends on the taxonomy of the result
  alone. Two results with the same taxonomy are accepted or rejected alike, whatever
  their tags: the tag check that follows the unconditional \<open>return false\<close> is never
  reached.
\<close>

theorem C10_filters_ignore_tags:
  assumes "taxonomy a = taxonomy b"
  shows "speciesSpecificForTarget selectedMammal (Some a)
           = speciesSpecificForTarget selectedMammal (Some b)
         \<and> speciesSpecificAny (Some a) = speciesSpecificAny (Some b)"
  using assms by (simp add: speciesSpecificForTarget_def speciesSpecificAny_def)

theorem C10_filters_ignore_tags_witness:
  "taxonomy (walrusItems ! 1) = taxonomy (walrusItems ! 2)
   \<and> tags (walrusItems ! 1) \<noteq> tags (walrusItems ! 2)
   \<and> spec_taggedDead (walrusItems ! 1)
   \<and> speciesSpecificForTarget walrus (Some (walrusItems ! 1))
   \<and> speciesSpecificForTarget walrus (Some (walrusItems ! 2))
   \<and> speciesSpecificAny (Some (walrusItems ! 1))
   \<and> speciesSpecificAny (Some (walrusItems ! 2))"
proof -
  have same: "taxonomy (walrusItems ! 1) = taxonomy (walrusItems ! 2)"
    by code_simp
  have differ: "tags (walrusItems ! 1) \<noteq> tags (walrusItems ! 2)"
    by code_simp
  have dead: "spec_taggedDead (walrusItems ! 1)"
    by code_simp
  have clean: "speciesSpecificForTarget walrus (Some (walrusItems ! 2))"
              "speciesSpecificAny (Some (walrusItems ! 2))"
    by code_simp+
  from C10_filters_ignore_tags [OF same, of walrus] clean
  have "speciesSpecificForTarget walrus (Some (walrusItems ! 1))"
       "speciesSpecificAny (Some (walrusItems ! 1))"
    by simp_all
  with same differ dead clean show ?thesis
    by simp
qed

section \<open>Claims about TaxonSampler\<close>

lemma randomIndex_less: "0 < n \<Longrightarrow> randomIndex r n < n"
proof transfer
  fix n :: nat and r :: rat
  assume n: "0 < n" and r: "0 \<le> r \<and> r < 1"
  then have "r * of_nat n < of_nat n" by simp
  then have "\<lfloor>r * of_nat n\<rfloor> < int n"
    by (simp add: floor_less_iff)
  moreover have "0 \<le> \<lfloor>r * of_nat n\<rfloor>" using r by simp
  ultimately show "nat \<lfloor>r * of_nat n\<rfloor> < n" by linarith
qed

declare getRandomMammalRecord_loop.simps [simp del]

text \<open>One pass through the body of the loop, on a list that is not empty.\<close>

lemma getRandomMammalRecord_loop_step:
  assumes "records \<noteq> []"
  shows "getRandomMammalRecord_loop w records rerollCount st =
     (let selectedMammal = records ! randomIndex (random w (randomCalls st)) (length records);
          st1 = st\<lparr>randomCalls := randomCalls st + 1\<rparr>
      in if shouldReroll selectedMammal \<and> rerollCount < 2
         then getRandomMammalRecord_loop w records (rerollCount + 1)
                (emit (Reroll (rerollCount + 1)) st1)
         else (Inr selectedMammal,
               if shouldReroll selectedMammal \<and> 2 \<le> rerollCount
               then emit KeptAfterRerolls st1 else st1))"
proof -
  from assms have "randomIndex (random w (randomCalls st)) (length records) < length records"
    by (simp add: randomIndex_less)
  then show ?thesis
    by (subst getRandomMammalRecord_loop.simps)
       (simp add: mathRandom_def nth_opt_def maxRerolls_def Let_def)
qed

lemma getRandomMammalRecord_loop_returns:
  assumes "records \<noteq> []" and "rerollCount \<le> 2"
  shows "\<exists>m st'. getRandomMammalRecord_loop w records rerollCount st = (Inr m, st')
           \<and> m \<in> set records \<and> randomCalls st' + rerollCount \<le> randomCalls st + 3"
  using assms(2)
proof (induction "2 - rerollCount" arbitrary: rerollCount st)
  case 0
  then have rc: "rerollCount = 2" by simp
  from assms(1) have "randomIndex (random w (randomCalls st)) (length records) < length records"
    by (simp add: randomIndex_less)
  then have "records ! randomIndex (random w (randomCalls st)) (length records) \<in> set records"
    by simp
  then show ?case
    using getRandomMammalRecord_loop_step [OF assms(1), of w 2 st]
    by (simp add: rc Let_def emit_def)
next
  case (Suc k)
  then have rc: "rerollCount < 2" by simp
  let ?m = "records ! randomIndex (random w (randomCalls st)) (length records)"
  let ?st1 = "st\<lparr>randomCalls := randomCalls st + 1\<rparr>"
  from assms(1) have "randomIndex (random w (randomCalls st)) (length records) < length records"
    by (simp add: randomIndex_less)
  then have mem: "?m \<in> set records"
    by simp
  show ?case
  proof (cases "shouldReroll ?m")
    case False
    with mem rc show ?thesis
      using getRandomMammalRecord_loop_step [OF assms(1), of w rerollCount st]
      by (simp add: Let_def)
  next
    case True
    from Suc have "k = 2 - (rerollCount + 1)" and "rerollCount + 1 \<le> 2"
      by simp_all
    from Suc.hyps(1) [OF this, of "emit (Reroll (rerollCount + 1)) ?st1"]
    obtain m st' where
      "getRandomMammalRecord_loop w records (rerollCount + 1)
         (emit (Reroll (rerollCount + 1)) ?st1) = (Inr m, st')"
      "m \<in> set records"
      "randomCalls st' + (rerollCount + 1)
         \<le> randomCalls (emit (Reroll (rerollCount + 1)) ?st1) + 3"
      by blast
    with True rc show ?thesis
      using getRandomMammalRecord_loop_step [OF assms(1), of w rerollCount st]
      by (simp add: Let_def emit_def)
  qed
qed

text \<open>
  C7: on a list that is not empty \<open>getRandomMammalRecord\<close> returns a record of the list
  after at most three draws. When every record is of family Muridae or Soricidae or of
  order Chiroptera, it re-rolls exactly twice and returns the third draw, logging that
  the record is kept after the re-rolls.
\<close>

theorem C7_reroll_terminates:
  "(records \<noteq> [] \<longrightarrow>
      (\<exists>m st'. getRandomMammalRecord w records st = (Inr m, st')
          \<and> m \<in> set records \<and> randomCalls st' \<le> randomCalls st + 3))
   \<and> (records \<noteq> []
        \<and> (\<forall>m \<in> set records. mammal_record.family m = ''Muridae''
               \<or> mammal_record.family m = ''Soricidae'' \<or> order m = ''Chiroptera'')
      \<longrightarrow> getRandomMammalRecord w records st
            = (Inr (records ! randomIndex (random w (randomCalls st + 2)) (length records)),
               st\<lparr>randomCalls := randomCalls st + 3,
                  trace := trace st @ [Reroll 1, Reroll 2, KeptAfterRerolls]\<rparr>))"
proof (intro conjI impI)
  assume "records \<noteq> []"
  from getRandomMammalRecord_loop_returns [OF this, of 0 w st]
  show "\<exists>m st'. getRandomMammalRecord w records st = (Inr m, st')
          \<and> m \<in> set records \<and> randomCalls st' \<le> randomCalls st + 3"
    by (simp add: getRandomMammalRecord_def)
next
  assume a: "records \<noteq> []
        \<and> (\<forall>m \<in> set records. mammal_record.family m = ''Muridae''
               \<or> mammal_record.family m = ''Soricidae'' \<or> order m = ''Chiroptera'')"
  then have ne: "records \<noteq> []" and all: "\<forall>m \<in> set records. shouldReroll m"
    by (simp_all add: shouldReroll_def)
  have drawn: "shouldReroll (records ! randomIndex r (length records))" for r
  proof -
    from ne have "randomIndex r (length records) < length records"
      by (simp add: randomIndex_less)
    with all show ?thesis by simp
  qed
  show "getRandomMammalRecord w records st
          = (Inr (records ! randomIndex (random w (randomCalls st + 2)) (length records)),
             st\<lparr>randomCalls := randomCalls st + 3,
                trace := trace st @ [Reroll 1, Reroll 2, KeptAfterRerolls]\<rparr>)"
  proof -
    let ?st1 = "emit (Reroll 1) (st\<lparr>randomCalls := randomCalls st + 1\<rparr>)"
    let ?st2 = "emit (Reroll 2) (?st1\<lparr>randomCalls := randomCalls ?st1 + 1\<rparr>)"
    have first: "getRandomMammalRecord_loop w records 0 st
                   = getRandomMammalRecord_loop w records 1 ?st1"
      using getRandomMammalRecord_loop_step [OF ne, of w 0 st] drawn
      by (simp add: Let_def)
    have second: "getRandomMammalRecord_loop w records 1 ?st1
                   = getRandomMammalRecord_loop w records 2 ?st2"
      using getRandomMammalRecord_loop_step [OF ne, of w 1 ?st1] drawn
      by (simp add: Let_def numeral_2_eq_2)
    have third: "getRandomMammalRecord_loop w records 2 ?st2
                   = (Inr (records ! randomIndex (random w (randomCalls ?st2)) (length records)),
                      emit KeptAfterRerolls (?st2\<lparr>randomCalls := randomCalls ?st2 + 1\<rparr>))"
      using getRandomMammalRecord_loop_step [OF ne, of w 2 ?st2] drawn
      by (simp add: Let_def)
    show ?thesis
      unfolding getRandomMammalRecord_def first second third
      by (simp add: emit_def)
  qed
qed

theorem C7_reroll_terminates_witness:
  "[houseMouse] \<noteq> []
   \<and> mammal_record.family houseMouse = ''Muridae''
   \<and> getRandomMammalRecord silentWorld [houseMouse] initialState
       = (Inr houseMouse,
          \<lparr>randomCalls = 3, requests = 0, trace = [Reroll 1, Reroll 2, KeptAfterRerolls]\<rparr>)"
proof -
  have fam: "mammal_record.family houseMouse = ''Muridae''"
    by (simp add: houseMouse_def)
  then have h: "[houseMouse] \<noteq> []
        \<and> (\<forall>m \<in> set [houseMouse]. mammal_record.family m = ''Muridae''
               \<or> mammal_record.family m = ''Soricidae'' \<or> order m = ''Chiroptera'')"
    by simp
  have idx: "randomIndex r (Suc 0) = 0" for r
    using randomIndex_less [of "Suc 0" r] by simp
  from C7_reroll_terminates [of "[houseMouse]" silentWorld initialState]
  have "getRandomMammalRecord silentWorld [houseMouse] initialState
          = (Inr ([houseMouse] ! randomIndex (random silentWorld (randomCalls initialState + 2))
                    (length [houseMouse])),
             initialState\<lparr>randomCalls := randomCalls initialState + 3,
                trace := trace initialState @ [Reroll 1, Reroll 2, KeptAfterRerolls]\<rparr>)"
    using h by (rule conjunct2 [THEN mp])
  then show ?thesis
    using fam by (simp add: idx initialState_def)
qed

section \<open>Claims about the final selection and the post text\<close>

declare birdLoop.simps [simp del] samplingLoop.simps [simp del]

lemma birdLoop_selected:
  "birdLoop w birdRecords attempts assetIds' selectedBird st = (Inr (ids, Some bird), st')
     \<Longrightarrow> selectedBird = Some bird \<or> bird \<in> set birdRecords"
proof (induction w birdRecords attempts assetIds' selectedBird st rule: birdLoop.induct)
  case (1 w birdRecords attempts assetIds' selectedBird st)
  show ?case
  proof (cases "attempts < 3 \<and> noAssets assetIds'")
    case False
    with "1.prems" show ?thesis
      by (subst (asm) birdLoop.simps) simp
  next
    case True
    obtain drawn st2 where g:
      "getRandomBirdRecord w birdRecords (emit (Attempt (attempts + 1)) st) = (drawn, st2)"
      by (cases "getRandomBirdRecord w birdRecords (emit (Attempt (attempts + 1)) st)")
    show ?thesis
    proof (cases drawn)
      case None
      with True g "1.prems" show ?thesis
        by (subst (asm) birdLoop.simps) (simp add: Let_def)
    next
      case (Some b)
      from g Some have mem: "b \<in> set birdRecords"
        by (auto simp: getRandomBirdRecord_def mathRandom_def nth_opt_def split: if_splits)
      obtain found st3 where s:
        "searchMacaulayForTaxon w (Species_code_Cornell_Lab b) False st2 = (found, st3)"
        by (cases "searchMacaulayForTaxon w (Species_code_Cornell_Lab b) False st2")
      show ?thesis
      proof (cases "noAssets (map_option fst found)")
        case False
        with True g Some s "1.prems" mem show ?thesis
          by (subst (asm) birdLoop.simps) (simp add: Let_def)
      next
        case again: True
        with True g Some s "1.prems"
        have "birdLoop w birdRecords (attempts + 1) (map_option fst found) (Some b) st3
                = (Inr (ids, Some bird), st')"
          by (subst (asm) birdLoop.simps) (simp add: Let_def)
        from "1.IH" [OF True refl g [symmetric] Some s [symmetric] refl _ this] again
        have "Some b = Some bird \<or> bird \<in> set birdRecords"
          by simp
        with mem show ?thesis by auto
      qed
    qed
  qed
qed


lemma finishMammalPost_Inr:
  assumes "finishMammalPost w mammalRecords searchResult selectedMammal st = (Inr q, st')"
  obtains sr details item sci com where
    "searchResult = Some sr" and "assetIds sr \<noteq> []" and "getAssetDetails sr = Some details"
    and "embedAssetId q
           = assetIds sr ! randomIndex (random w (randomCalls st)) (length (assetIds sr))"
    and "details (embedAssetId q) = Some item"
    and "taxonomy item = Some (actualTaxonomy q)"
    and "category (actualTaxonomy q) = Some ''species''
           \<or> category (actualTaxonomy q) = Some ''subspecies''"
    and "taxonomy.sciName (actualTaxonomy q) = Some sci" and "sci \<noteq> []"
    and "comName (actualTaxonomy q) = Some com" and "com \<noteq> []"
    and "postText q = mammalPostText (category (actualTaxonomy q)) sci com (postMammal q)"
    and "length (postText q) \<le> 300"
proof -
  from assms obtain sr where sr: "searchResult = Some sr" and ne: "assetIds sr \<noteq> []"
    by (auto simp: finishMammalPost_def split: option.splits if_splits)
  let ?id = "assetIds sr ! randomIndex (random w (randomCalls st)) (length (assetIds sr))"
  from assms sr ne obtain details where d: "getAssetDetails sr = Some details"
    by (cases "getAssetDetails sr")
       (auto simp: finishMammalPost_def Let_def mathRandom_def split: option.splits if_splits)
  from assms sr ne d obtain item where i: "details ?id = Some item"
    by (cases "details ?id")
       (auto simp: finishMammalPost_def Let_def mathRandom_def split: option.splits if_splits)
  from assms sr ne d i obtain tx where t: "taxonomy item = Some tx"
    by (cases "taxonomy item")
       (auto simp: finishMammalPost_def Let_def mathRandom_def split: option.splits if_splits)
  from assms sr ne d i t obtain sci where s: "taxonomy.sciName tx = Some sci" "sci \<noteq> []"
    by (cases "taxonomy.sciName tx")
       (auto simp: finishMammalPost_def Let_def mathRandom_def split: option.splits if_splits)
  from assms sr ne d i t s obtain com where c: "comName tx = Some com" "com \<noteq> []"
    by (cases "comName tx")
       (auto simp: finishMammalPost_def Let_def mathRandom_def split: option.splits if_splits)
  from assms sr ne d i t s c
  have r: "embedAssetId q = ?id \<and> actualTaxonomy q = tx
        \<and> (category tx = Some ''species'' \<or> category tx = Some ''subspecies'')
        \<and> postText q = mammalPostText (category tx) sci com (postMammal q)
        \<and> length (postText q) \<le> 300"
    by (auto simp: finishMammalPost_def Let_def mathRandom_def split: option.splits if_splits)
  then have e: "embedAssetId q = ?id" and a: "actualTaxonomy q = tx"
    by simp_all
  show thesis
  proof (rule that [OF sr ne d e])
    show "details (embedAssetId q) = Some item" using i e by simp
    show "taxonomy item = Some (actualTaxonomy q)" using t a by simp
    show "category (actualTaxonomy q) = Some ''species''
           \<or> category (actualTaxonomy q) = Some ''subspecies''" using r by simp
    show "taxonomy.sciName (actualTaxonomy q) = Some sci" using s a by simp
    show "sci \<noteq> []" by (rule s)
    show "comName (actualTaxonomy q) = Some com" using c a by simp
    show "com \<noteq> []" by (rule c)
    show "postText q = mammalPostText (category (actualTaxonomy q)) sci com (postMammal q)"
      using r by simp
    from r show "length (postText q) \<le> 300" by (elim conjE)
  qed
qed


lemma generateMammalPost_pool:
  assumes "mammalCsv w = Some mammalRecords" and "mammalRecords \<noteq> []"
  shows "generateMammalPost w testSpeciesSciName st
           = (case resolvePool w mammalRecords testSpeciesSciName st of
                (Inl e, st1) \<Rightarrow> (Inl e, st1)
              | (Inr (searchResult, selectedMammal), st1) \<Rightarrow>
                  finishMammalPost w mammalRecords searchResult selectedMammal st1)"
  using assms by (simp add: generateMammalPost_def)

lemma generateMammalPost_Inr_pool:
  assumes "generateMammalPost w testSpeciesSciName st = (Inr q, st')"
  obtains mammalRecords searchResult selectedMammal st1 where
    "mammalCsv w = Some mammalRecords" and "mammalRecords \<noteq> []"
    and "resolvePool w mammalRecords testSpeciesSciName st
           = (Inr (searchResult, selectedMammal), st1)"
  using assms
  by (auto simp: generateMammalPost_def split: option.splits if_splits prod.splits sum.splits)

lemma finishMammalPost_rejects:
  assumes "getAssetDetails sr = Some details" and "assetIds sr \<noteq> []"
    and "case details (assetIds sr ! randomIndex (random w (randomCalls st))
                                      (length (assetIds sr))) of
           None \<Rightarrow> True
         | Some item \<Rightarrow>
             (case taxonomy item of
                None \<Rightarrow> True
              | Some tx \<Rightarrow> category tx \<noteq> Some ''species'' \<and> category tx \<noteq> Some ''subspecies'')"
  shows "\<exists>c. fst (finishMammalPost w mammalRecords (Some sr) selectedMammal st)
               = Inl (NotSpeciesSpecific c)"
  using assms
  by (auto simp: finishMammalPost_def Let_def mathRandom_def split: option.splits)



lemma samplingLoop_first:
  "samplingLoop w mammalRecords 0 None None st
     = (case samplingAttempt w mammalRecords 1 st of
          (Inl e, st') \<Rightarrow> (Inl e, st')
        | (Inr (left, searchResult, selectedMammal), st') \<Rightarrow>
            if left then (Inr (searchResult, Some selectedMammal), st')
            else samplingLoop w mammalRecords 1 searchResult (Some selectedMammal) st')"
  by (subst samplingLoop.simps)
     (simp add: maxAttempts_def isEmptyResult_def split: prod.splits sum.splits)

text \<open>
  C2: in either mode, let the pool stage of \<open>generateMammalPost\<close> have produced a pool and
  a selected record. A post is returned only when the pool has a look-up, the asset of the
  post is the one drawn from the pool, the look-up gives a record for that asset, the
  taxonomy of that record is the taxonomy the post is built from, and its rank is species
  or subspecies. When the look-up has no record for the asset drawn, or the record has no
  taxonomy or one of another rank, the call itself fails with the error of line 538.
\<close>

theorem C2_only_species_specific_emitted:
  assumes csv: "mammalCsv w = Some mammalRecords" and ne: "mammalRecords \<noteq> []"
    and pool: "resolvePool w mammalRecords testSpeciesSciName st
                 = (Inr (searchResult, selectedMammal), st1)"
  shows "(\<forall>q st'. generateMammalPost w testSpeciesSciName st = (Inr q, st') \<longrightarrow>
            (\<exists>sr details item.
               searchResult = Some sr \<and> assetIds sr \<noteq> [] \<and> getAssetDetails sr = Some details
               \<and> embedAssetId q
                   = assetIds sr ! randomIndex (random w (randomCalls st1)) (length (assetIds sr))
               \<and> details (embedAssetId q) = Some item
               \<and> taxonomy item = Some (actualTaxonomy q)
               \<and> (category (actualTaxonomy q) = Some ''species''
                   \<or> category (actualTaxonomy q) = Some ''subspecies'')))
         \<and> (\<forall>sr details.
               searchResult = Some sr \<and> assetIds sr \<noteq> [] \<and> getAssetDetails sr = Some details
               \<and> (case details (assetIds sr ! randomIndex (random w (randomCalls st1))
                                                  (length (assetIds sr))) of
                     None \<Rightarrow> True
                   | Some item \<Rightarrow>
                       (case taxonomy item of
                          None \<Rightarrow> True
                        | Some tx \<Rightarrow> category tx \<noteq> Some ''species''
                                     \<and> category tx \<noteq> Some ''subspecies''))
               \<longrightarrow> (\<exists>c. fst (generateMammalPost w testSpeciesSciName st)
                          = Inl (NotSpeciesSpecific c)))"
proof -
  have run: "generateMammalPost w testSpeciesSciName st
               = finishMammalPost w mammalRecords searchResult selectedMammal st1"
    using pool by (simp add: generateMammalPost_pool [OF csv ne])
  show ?thesis
  proof (intro conjI allI impI)
    fix q st'
    assume "generateMammalPost w testSpeciesSciName st = (Inr q, st')"
    then have fin: "finishMammalPost w mammalRecords searchResult selectedMammal st1
                      = (Inr q, st')"
      by (simp only: run)
    from fin obtain sr details item sci com where
      f: "searchResult = Some sr" "assetIds sr \<noteq> []" "getAssetDetails sr = Some details"
         "embedAssetId q
            = assetIds sr ! randomIndex (random w (randomCalls st1)) (length (assetIds sr))"
         "details (embedAssetId q) = Some item"
         "taxonomy item = Some (actualTaxonomy q)"
         "category (actualTaxonomy q) = Some ''species''
            \<or> category (actualTaxonomy q) = Some ''subspecies''"
         "taxonomy.sciName (actualTaxonomy q) = Some sci" "sci \<noteq> []"
         "comName (actualTaxonomy q) = Some com" "com \<noteq> []"
         "postText q = mammalPostText (category (actualTaxonomy q)) sci com (postMammal q)"
         "length (postText q) \<le> 300"
      by (rule finishMammalPost_Inr)
    from f(1-7) have "searchResult = Some sr \<and> assetIds sr \<noteq> []
               \<and> getAssetDetails sr = Some details
               \<and> embedAssetId q
                   = assetIds sr ! randomIndex (random w (randomCalls st1)) (length (assetIds sr))
               \<and> details (embedAssetId q) = Some item
               \<and> taxonomy item = Some (actualTaxonomy q)
               \<and> (category (actualTaxonomy q) = Some ''species''
                   \<or> category (actualTaxonomy q) = Some ''subspecies'')"
      by (intro conjI)
    then show "\<exists>sr details item.
               searchResult = Some sr \<and> assetIds sr \<noteq> [] \<and> getAssetDetails sr = Some details
               \<and> embedAssetId q
                   = assetIds sr ! randomIndex (random w (randomCalls st1)) (length (assetIds sr))
               \<and> details (embedAssetId q) = Some item
               \<and> taxonomy item = Some (actualTaxonomy q)
               \<and> (category (actualTaxonomy q) = Some ''species''
                   \<or> category (actualTaxonomy q) = Some ''subspecies'')"
      by (intro exI)
  next
    fix sr details
    assume a: "searchResult = Some sr \<and> assetIds sr \<noteq> [] \<and> getAssetDetails sr = Some details
               \<and> (case details (assetIds sr ! randomIndex (random w (randomCalls st1))
                                                  (length (assetIds sr))) of
                     None \<Rightarrow> True
                   | Some item \<Rightarrow>
                       (case taxonomy item of
                          None \<Rightarrow> True
                        | Some tx \<Rightarrow> category tx \<noteq> Some ''species''
                                     \<and> category tx \<noteq> Some ''subspecies''))"
    then have sr: "searchResult = Some sr" by (rule conjunct1)
    from a have "\<exists>c. fst (finishMammalPost w mammalRecords (Some sr) selectedMammal st1)
               = Inl (NotSpeciesSpecific c)"
      using finishMammalPost_rejects [of sr details w st1 mammalRecords selectedMammal]
      by (elim conjE)
    then show "\<exists>c. fst (generateMammalPost w testSpeciesSciName st)
                      = Inl (NotSpeciesSpecific c)"
      by (simp only: run sr)
  qed
qed

theorem C2_only_species_specific_emitted_witness:
  "mammalCsv familyWorld = Some [walrus] \<and> [walrus] \<noteq> []
   \<and> generateMammalPost familyWorld (Some ''Odobenus_rosmarus'') initialState
       = (Inr walrusPost, \<lparr>randomCalls = 1, requests = 3, trace = []\<rparr>)
   \<and> (\<exists>searchResult selectedMammal st1 sr details item.
         resolvePool familyWorld [walrus] (Some ''Odobenus_rosmarus'') initialState
           = (Inr (searchResult, selectedMammal), st1)
         \<and> searchResult = Some sr \<and> getAssetDetails sr = Some details
         \<and> embedAssetId walrusPost
             = assetIds sr ! randomIndex (random familyWorld (randomCalls st1))
                                (length (assetIds sr))
         \<and> details (embedAssetId walrusPost) = Some item
         \<and> taxonomy item = Some (actualTaxonomy walrusPost))
   \<and> (category (actualTaxonomy walrusPost) = Some ''species''
        \<or> category (actualTaxonomy walrusPost) = Some ''subspecies'')
   \<and> generateMammalPost familyWorld None initialState
       = (Inr walrusPost, \<lparr>randomCalls = 2, requests = 3, trace = [Attempt 1]\<rparr>)
   \<and> mammalCsv mislabelledWorld = Some [walrus]
   \<and> fst (generateMammalPost mislabelledWorld (Some ''Odobenus_rosmarus'') initialState)
       = Inl (NotSpeciesSpecific (Some ''family''))
   \<and> fst (generateMammalPost mislabelledWorld None initialState)
       = Inl (NotSpeciesSpecific (Some ''family''))"
proof -
  have csv: "mammalCsv familyWorld = Some [walrus]" and ne: "[walrus] \<noteq> []"
    by (simp_all add: familyWorld_def)
  have run: "generateMammalPost familyWorld (Some ''Odobenus_rosmarus'') initialState
               = (Inr walrusPost, \<lparr>randomCalls = 1, requests = 3, trace = []\<rparr>)"
    by code_simp
  from run obtain recs searchResult selectedMammal st1 where
    "mammalCsv familyWorld = Some recs"
    and "resolvePool familyWorld recs (Some ''Odobenus_rosmarus'') initialState
           = (Inr (searchResult, selectedMammal), st1)"
    by (rule generateMammalPost_Inr_pool)
  with csv have pool:
    "resolvePool familyWorld [walrus] (Some ''Odobenus_rosmarus'') initialState
       = (Inr (searchResult, selectedMammal), st1)"
    by simp
  note c2 = C2_only_species_specific_emitted [OF csv ne pool]
  from c2 [THEN conjunct1, THEN spec, THEN spec, THEN mp, OF run]
  obtain sr details item where
    f: "searchResult = Some sr" "assetIds sr \<noteq> []" "getAssetDetails sr = Some details"
       "embedAssetId walrusPost
          = assetIds sr ! randomIndex (random familyWorld (randomCalls st1))
                             (length (assetIds sr))"
       "details (embedAssetId walrusPost) = Some item"
       "taxonomy item = Some (actualTaxonomy walrusPost)"
       "category (actualTaxonomy walrusPost) = Some ''species''
          \<or> category (actualTaxonomy walrusPost) = Some ''subspecies''"
    by (elim exE conjE)
  from pool f(1,3,4,5,6)
  have tied: "resolvePool familyWorld [walrus] (Some ''Odobenus_rosmarus'') initialState
           = (Inr (searchResult, selectedMammal), st1)
         \<and> searchResult = Some sr \<and> getAssetDetails sr = Some details
         \<and> embedAssetId walrusPost
             = assetIds sr ! randomIndex (random familyWorld (randomCalls st1))
                                (length (assetIds sr))
         \<and> details (embedAssetId walrusPost) = Some item
         \<and> taxonomy item = Some (actualTaxonomy walrusPost)"
    by (intro conjI)
  have linked: "\<exists>searchResult selectedMammal st1 sr details item.
         resolvePool familyWorld [walrus] (Some ''Odobenus_rosmarus'') initialState
           = (Inr (searchResult, selectedMammal), st1)
         \<and> searchResult = Some sr \<and> getAssetDetails sr = Some details
         \<and> embedAssetId walrusPost
             = assetIds sr ! randomIndex (random familyWorld (randomCalls st1))
                                (length (assetIds sr))
         \<and> details (embedAssetId walrusPost) = Some item
         \<and> taxonomy item = Some (actualTaxonomy walrusPost)"
    using tied by (intro exI)
  have hit: "(case samplingAttempt familyWorld [walrus] 1 initialState of
                (Inl e, st') \<Rightarrow> (Inl e, st')
              | (Inr (left, sr, sel), st') \<Rightarrow>
                  if left then finishMammalPost familyWorld [walrus] sr (Some sel) st'
                  else (Inl TypeError, st'))
               = (Inr walrusPost, \<lparr>randomCalls = 2, requests = 3, trace = [Attempt 1]\<rparr>)"
    by code_simp
  have sampled: "generateMammalPost familyWorld None initialState
       = (Inr walrusPost, \<lparr>randomCalls = 2, requests = 3, trace = [Attempt 1]\<rparr>)"
    using hit
    by (simp add: generateMammalPost_pool [OF csv ne] resolvePool_def samplingLoop_first
             split: prod.splits sum.splits if_splits)
  have csv': "mammalCsv mislabelledWorld = Some [walrus]"
    by (simp add: mislabelledWorld_def)
  have rejected:
    "fst (generateMammalPost mislabelledWorld (Some ''Odobenus_rosmarus'') initialState)
       = Inl (NotSpeciesSpecific (Some ''family''))"
    by code_simp
  have hit': "fst (case samplingAttempt mislabelledWorld [walrus] 1 initialState of
                (Inl e, st') \<Rightarrow> (Inl e, st')
              | (Inr (left, sr, sel), st') \<Rightarrow>
                  if left then finishMammalPost mislabelledWorld [walrus] sr (Some sel) st'
                  else (Inl TypeError, st'))
               = Inl (NotSpeciesSpecific (Some ''family''))"
    by code_simp
  have rejected': "fst (generateMammalPost mislabelledWorld None initialState)
       = Inl (NotSpeciesSpecific (Some ''family''))"
    using hit'
    by (simp add: generateMammalPost_pool [OF csv' ne] resolvePool_def samplingLoop_first
             split: prod.splits sum.splits if_splits)
  from csv ne run linked f(7) sampled csv' rejected rejected' show ?thesis
    by (intro conjI)
qed




section \<open>Claims about the sampling loop\<close>

lemma pacing_append: "pacing (xs @ ys) = pacing xs @ pacing ys"
  by (simp add: pacing_def)

lemma pacing_simps:
  "pacing [] = []"
  "pacing (Attempt n # evs) = Attempt n # pacing evs"
  "pacing (Sleep ms # evs) = Sleep ms # pacing evs"
  "pacing (Reroll n # evs) = pacing evs"
  "pacing (KeptAfterRerolls # evs) = pacing evs"
  by (simp_all add: pacing_def paced_def)

lemma missedSchedule_last: "missedSchedule maxAttempts = []"
  by (simp add: missedSchedule_def)

lemma missedSchedule_step:
  "attempts < maxAttempts \<Longrightarrow>
     missedSchedule attempts
       = (if attempts + 1 < maxAttempts then [Attempt (attempts + 1), Sleep 5000]
          else [Attempt (attempts + 1)]) @ missedSchedule (attempts + 1)"
  by (simp add: missedSchedule_def upt_conv_Cons)

lemma missedSchedule_0:
  "missedSchedule 0 = [Attempt 1, Sleep 5000, Attempt 2, Sleep 5000, Attempt 3, Sleep 5000,
                       Attempt 4, Sleep 5000, Attempt 5]"
  by code_simp

lemma searchMacaulayForTaxon_trace:
  "trace (snd (searchMacaulayForTaxon w taxonCode includeChildTaxa st)) = trace st"
  by (simp add: searchMacaulayForTaxon_def Let_def split: media_response.splits option.splits)

lemma snd_case_search:
  "snd (case p of
          (None, st2) \<Rightarrow> (None, st2)
        | (Some (ids, details), st2) \<Rightarrow>
            if ids = [] then (None, st2) else (Some (g ids details), st2))
     = snd p"
  by (cases p) (auto split: option.splits)

lemma searchMacaulayByTaxonomy_trace:
  "trace (snd (searchMacaulayByTaxonomy w searchTerm searchType st)) = trace st"
  by (simp add: searchMacaulayByTaxonomy_def Let_def snd_case_search
                searchMacaulayForTaxon_trace
           split: taxonomy_response.splits option.splits)

lemma getRandomMammalRecord_loop_trace:
  "getRandomMammalRecord_loop w records rerollCount st = (res, st')
     \<Longrightarrow> \<exists>ev. trace st' = trace st @ ev \<and> pacing ev = []
            \<and> (\<forall>e. res = Inl e \<longrightarrow> e = TypeError)"
proof (induction w records rerollCount st arbitrary: res st'
         rule: getRandomMammalRecord_loop.induct)
  case (1 w records rerollCount st)
  let ?st1 = "st\<lparr>randomCalls := randomCalls st + 1\<rparr>"
  let ?drawn = "nth_opt records (randomIndex (random w (randomCalls st)) (length records))"
  show ?case
  proof (cases ?drawn)
    case None
    with "1.prems" have "st' = ?st1" "res = Inl TypeError"
      by (subst (asm) getRandomMammalRecord_loop.simps; simp add: mathRandom_def)+
    then show ?thesis by (simp add: pacing_simps)
  next
    case (Some m)
    show ?thesis
    proof (cases "shouldReroll m \<and> rerollCount < maxRerolls")
      case False
      with Some "1.prems"
      have "st' = (if shouldReroll m \<and> rerollCount \<ge> maxRerolls
                   then emit KeptAfterRerolls ?st1 else ?st1)" "res = Inr m"
        by (subst (asm) getRandomMammalRecord_loop.simps; auto simp: mathRandom_def)+
      then show ?thesis
        by (auto simp: emit_def pacing_simps)
    next
      case True
      then have le: "rerollCount + 1 \<le> maxRerolls" by simp
      let ?st2 = "emit (Reroll (rerollCount + 1)) ?st1"
      from True Some "1.prems" le
      have rec: "getRandomMammalRecord_loop w records (rerollCount + 1) ?st2 = (res, st')"
        by (subst (asm) getRandomMammalRecord_loop.simps) (simp add: mathRandom_def Let_def)
      have "\<exists>ev. trace st' = trace ?st2 @ ev \<and> pacing ev = []
                 \<and> (\<forall>e. res = Inl e \<longrightarrow> e = TypeError)"
        by (rule "1.IH" [OF _ refl Some _ refl le rec])
           (simp_all add: mathRandom_def True)
      then obtain ev where "trace st' = trace ?st2 @ ev" "pacing ev = []"
        and err: "\<forall>e. res = Inl e \<longrightarrow> e = TypeError"
        by blast
      then have "trace st' = trace st @ (Reroll (rerollCount + 1) # ev)
                 \<and> pacing (Reroll (rerollCount + 1) # ev) = []"
        by (simp add: emit_def pacing_simps)
      with err show ?thesis by blast
    qed
  qed
qed


lemma getRandomMammalRecord_trace:
  "getRandomMammalRecord w records st = (res, st')
     \<Longrightarrow> \<exists>ev. trace st' = trace st @ ev \<and> pacing ev = []
            \<and> (\<forall>e. res = Inl e \<longrightarrow> e = TypeError)"
  unfolding getRandomMammalRecord_def by (rule getRandomMammalRecord_loop_trace)

text \<open>What one attempt adds to the trace, and what it hands back.\<close>

lemma samplingAttempt_trace:
  assumes "samplingAttempt w mammalRecords k st = (res, st')"
  shows "\<exists>ev. trace st' = trace st @ ev
           \<and> (case res of
                 Inl e \<Rightarrow> pacing ev = [Attempt k] \<and> e = TypeError
               | Inr (left, sr, sel) \<Rightarrow>
                   if left then pacing ev = [Attempt k] \<and> \<not> isEmptyResult sr
                   else pacing ev = (if k < maxAttempts then [Attempt k, Sleep 5000]
                                     else [Attempt k]))"
proof -
  obtain drawn st1 where g:
    "getRandomMammalRecord w mammalRecords (emit (Attempt k) st) = (drawn, st1)"
    by (cases "getRandomMammalRecord w mammalRecords (emit (Attempt k) st)")
  from getRandomMammalRecord_trace [OF g] obtain ev1 where
    "trace st1 = trace (emit (Attempt k) st) @ ev1" and quiet: "pacing ev1 = []"
    and err: "\<forall>e. drawn = Inl e \<longrightarrow> e = TypeError"
    by blast
  then have t1: "trace st1 = trace st @ (Attempt k # ev1)"
    by (simp add: emit_def)
  have p1: "pacing (Attempt k # ev1) = [Attempt k]"
    using quiet by (simp add: pacing_simps)
  show ?thesis
  proof (cases drawn)
    case (Inl e)
    with assms g have "res = Inl e" "st' = st1"
      by (simp_all add: samplingAttempt_def)
    with t1 p1 err Inl show ?thesis by auto
  next
    case (Inr sel)
    let ?formatted = "replaceStr CHR ''_'' CHR '' '' (mammal_record.sciName sel)"
    obtain sr1 st2 where s1: "searchMacaulayByTaxonomy w ?formatted SpeciesRank st1 = (sr1, st2)"
      by (cases "searchMacaulayByTaxonomy w ?formatted SpeciesRank st1")
    then have t2: "trace st2 = trace st1"
      using searchMacaulayByTaxonomy_trace [of w ?formatted SpeciesRank st1] by simp
    show ?thesis
    proof (cases "isEmptyResult sr1")
      case False
      with assms g Inr s1 have "res = Inr (True, sr1, sel)" "st' = st2"
        by (simp_all add: samplingAttempt_def)
      with False t1 t2 p1 show ?thesis by auto
    next
      case True
      obtain fr st3 where s2:
        "searchMacaulayByTaxonomy w (mammal_record.family sel) FamilyRank st2 = (fr, st3)"
        by (cases "searchMacaulayByTaxonomy w (mammal_record.family sel) FamilyRank st2")
      then have t3: "trace st3 = trace st2"
        using searchMacaulayByTaxonomy_trace [of w "mammal_record.family sel" FamilyRank st2]
        by simp
      have paused: "trace (pause k st3) = trace st @ (Attempt k # ev1
                       @ (if k < maxAttempts then [Sleep 5000] else []))"
        using t1 t2 t3 by (simp add: pause_def emit_def)
      have pp: "pacing (Attempt k # ev1 @ (if k < maxAttempts then [Sleep 5000] else []))
                  = (if k < maxAttempts then [Attempt k, Sleep 5000] else [Attempt k])"
        using quiet by (simp add: pacing_simps pacing_append)
      from assms g Inr s1 True s2
      consider (left) ids where "res = Inr (True, ids, sel)" "st' = st3" "\<not> isEmptyResult ids"
        | (missed) sr where "res = Inr (False, sr, sel)" "st' = pause k st3"
        by (auto simp: samplingAttempt_def Let_def isEmptyResult_def
                 split: option.splits if_splits)
      then show ?thesis
      proof cases
        case left
        with t1 t2 t3 p1 show ?thesis by auto
      next
        case missed
        with paused pp show ?thesis by auto
      qed
    qed
  qed
qed

lemma samplingLoop_trace:
  assumes "samplingLoop w mammalRecords attempts searchResult selectedMammal st = (res, st')"
    and "attempts \<le> maxAttempts"
  shows "\<exists>ev rest. trace st' = trace st @ ev
           \<and> missedSchedule attempts = pacing ev @ rest
           \<and> (\<forall>sr sel. res = Inr (sr, sel) \<and> isEmptyResult sr
                 \<longrightarrow> pacing ev = missedSchedule attempts)
           \<and> (\<forall>e. res = Inl e \<longrightarrow> e = TypeError)"
  using assms
proof (induction w mammalRecords attempts searchResult selectedMammal st
         arbitrary: res st' rule: samplingLoop.induct)
  case (1 w mammalRecords attempts searchResult selectedMammal st)
  show ?case
  proof (cases "attempts < maxAttempts \<and> isEmptyResult searchResult")
    case False
    with "1.prems"(1) have r: "res = Inr (searchResult, selectedMammal)" "st' = st"
      by (subst (asm) samplingLoop.simps; simp)+
    have "isEmptyResult searchResult \<Longrightarrow> missedSchedule attempts = []"
      using False "1.prems"(2) missedSchedule_last by auto
    with r show ?thesis
      by (auto simp: pacing_simps)
  next
    case True
    then have lt: "attempts < maxAttempts" by simp
    obtain out st1 where a: "samplingAttempt w mammalRecords (attempts + 1) st = (out, st1)"
      by (cases "samplingAttempt w mammalRecords (attempts + 1) st")
    from samplingAttempt_trace [OF a] obtain ev1 where
      t1: "trace st1 = trace st @ ev1"
      and shape: "case out of
                 Inl e \<Rightarrow> pacing ev1 = [Attempt (attempts + 1)] \<and> e = TypeError
               | Inr (left, sr, sel) \<Rightarrow>
                   if left then pacing ev1 = [Attempt (attempts + 1)] \<and> \<not> isEmptyResult sr
                   else pacing ev1 = (if attempts + 1 < maxAttempts
                                      then [Attempt (attempts + 1), Sleep 5000]
                                      else [Attempt (attempts + 1)])"
      by blast
    note sched = missedSchedule_step [OF lt]
    show ?thesis
    proof (cases out)
      case (Inl e)
      with True a "1.prems"(1) have r: "res = Inl e" "st' = st1"
        by (subst (asm) samplingLoop.simps; simp)+
      from shape Inl have "pacing ev1 = [Attempt (attempts + 1)]" and "e = TypeError"
        by simp_all
      with sched have "\<exists>rest. missedSchedule attempts = pacing ev1 @ rest" and "e = TypeError"
        by (simp_all split: if_splits)
      with r t1 show ?thesis by auto
    next
      case (Inr triple)
      obtain left sr1 sel1 where triple: "triple = (left, sr1, sel1)"
        by (cases triple)
      show ?thesis
      proof (cases left)
        case True
        with \<open>attempts < maxAttempts \<and> isEmptyResult searchResult\<close> a Inr triple "1.prems"(1)
        have r: "res = Inr (sr1, Some sel1)" "st' = st1"
          by (subst (asm) samplingLoop.simps; simp)+
        from shape Inr triple True
        have p: "pacing ev1 = [Attempt (attempts + 1)]" and full: "\<not> isEmptyResult sr1"
          by simp_all
        from p sched have "\<exists>rest. missedSchedule attempts = pacing ev1 @ rest"
          by (simp split: if_splits)
        with r t1 full show ?thesis by auto
      next
        case False
        with \<open>attempts < maxAttempts \<and> isEmptyResult searchResult\<close> a Inr triple "1.prems"(1)
        have rec: "samplingLoop w mammalRecords (attempts + 1) sr1 (Some sel1) st1 = (res, st')"
          by (subst (asm) samplingLoop.simps) simp
        from shape Inr triple False
        have p: "pacing ev1 = (if attempts + 1 < maxAttempts
                               then [Attempt (attempts + 1), Sleep 5000]
                               else [Attempt (attempts + 1)])"
          by simp
        from lt have le: "attempts + 1 \<le> maxAttempts" by simp
        from "1.IH" [OF \<open>attempts < maxAttempts \<and> isEmptyResult searchResult\<close>
                        a [symmetric] Inr triple [symmetric] refl False rec le]
        obtain ev2 rest where
          t2: "trace st' = trace st1 @ ev2"
          and pre: "missedSchedule (attempts + 1) = pacing ev2 @ rest"
          and all: "\<forall>sr sel. res = Inr (sr, sel) \<and> isEmptyResult sr
                      \<longrightarrow> pacing ev2 = missedSchedule (attempts + 1)"
          and err: "\<forall>e. res = Inl e \<longrightarrow> e = TypeError"
          by blast
        have "trace st' = trace st @ (ev1 @ ev2)"
          using t1 t2 by simp
        moreover have "missedSchedule attempts = pacing (ev1 @ ev2) @ rest"
          using sched p pre by (simp add: pacing_append)
        moreover have "\<forall>sr sel. res = Inr (sr, sel) \<and> isEmptyResult sr
                      \<longrightarrow> pacing (ev1 @ ev2) = missedSchedule attempts"
          using sched p all by (simp add: pacing_append)
        ultimately show ?thesis using err by blast
      qed
    qed
  qed
qed

text \<open>
  An attempt ends with an empty candidate pool exactly when it is a miss that hands an
  empty result back to the loop.
\<close>

lemma samplingAttempt_empty:
  assumes "samplingAttempt w mammalRecords k st = (res, st')"
  shows "attemptPoolEmpty w mammalRecords k st
           \<longleftrightarrow> (\<exists>sr sel. res = Inr (False, sr, sel) \<and> isEmptyResult sr)"
  using assms
  by (auto simp: samplingAttempt_def attemptPoolEmpty_def familyPoolEmpty_def
                 isEmptyResult_def Let_def
           split: prod.splits sum.splits option.splits if_splits)

lemma samplingAttempt_left:
  assumes "samplingAttempt w mammalRecords k st = (Inr (True, sr, sel), st')"
  shows "\<not> isEmptyResult sr"
  using assms
  by (auto simp: samplingAttempt_def isEmptyResult_def Let_def
           split: prod.splits sum.splits option.splits if_splits)

lemma samplingLoop_exhausts:
  assumes "attempts \<le> maxAttempts" and "isEmptyResult searchResult"
  shows "(\<exists>sr sel st'.
            samplingLoop w mammalRecords attempts searchResult selectedMammal st
              = (Inr (sr, sel), st')
            \<and> isEmptyResult sr)
         \<longleftrightarrow> attemptsAllEmpty w mammalRecords (maxAttempts - attempts) attempts st"
  using assms
proof (induction "maxAttempts - attempts" arbitrary: attempts searchResult selectedMammal st)
  case 0
  then have "\<not> attempts < maxAttempts" by simp
  then have "samplingLoop w mammalRecords attempts searchResult selectedMammal st
               = (Inr (searchResult, selectedMammal), st)"
    by (subst samplingLoop.simps) simp
  with "0.prems" "0.hyps" [symmetric] show ?case by simp
next
  case (Suc n)
  then have lt: "attempts < maxAttempts" by simp
  from Suc.hyps(2) have n: "maxAttempts - attempts = Suc n" by simp
  from Suc.hyps(2) lt have n': "n = maxAttempts - (attempts + 1)"
    and le: "attempts + 1 \<le> maxAttempts"
    by simp_all
  obtain out st1 where a: "samplingAttempt w mammalRecords (attempts + 1) st = (out, st1)"
    by (cases "samplingAttempt w mammalRecords (attempts + 1) st")
  note empty = samplingAttempt_empty [OF a]
  show ?case
  proof (cases out)
    case (Inl e)
    with lt Suc.prems(2) a
    have "samplingLoop w mammalRecords attempts searchResult selectedMammal st = (Inl e, st1)"
      by (subst samplingLoop.simps) simp
    moreover from empty Inl have "\<not> attemptPoolEmpty w mammalRecords (attempts + 1) st"
      by simp
    ultimately show ?thesis by (simp add: n)
  next
    case (Inr triple)
    obtain left sr1 sel1 where triple: "triple = (left, sr1, sel1)"
      by (cases triple)
    show ?thesis
    proof (cases left)
      case True
      with lt Suc.prems(2) a Inr triple
      have "samplingLoop w mammalRecords attempts searchResult selectedMammal st
              = (Inr (sr1, Some sel1), st1)"
        by (subst samplingLoop.simps) simp
      moreover from a Inr triple True have "\<not> isEmptyResult sr1"
        by (simp add: samplingAttempt_left)
      moreover from empty Inr triple True
      have "\<not> attemptPoolEmpty w mammalRecords (attempts + 1) st"
        by simp
      ultimately show ?thesis by (simp add: n)
    next
      case False
      with lt Suc.prems(2) a Inr triple
      have step: "samplingLoop w mammalRecords attempts searchResult selectedMammal st
                    = samplingLoop w mammalRecords (attempts + 1) sr1 (Some sel1) st1"
        by (subst samplingLoop.simps) simp
      from empty Inr triple False
      have pool: "attemptPoolEmpty w mammalRecords (attempts + 1) st = isEmptyResult sr1"
        by simp
      show ?thesis
      proof (cases "isEmptyResult sr1")
        case True
        have "(\<exists>sr sel st'.
                 samplingLoop w mammalRecords (attempts + 1) sr1 (Some sel1) st1
                   = (Inr (sr, sel), st')
                 \<and> isEmptyResult sr)
              \<longleftrightarrow> attemptsAllEmpty w mammalRecords n (attempts + 1) st1"
          using Suc.hyps(1) [OF n' le True, of "Some sel1" st1]
          by (simp only: n' [symmetric])
        with step pool True a show ?thesis
          by (simp add: n)
      next
        case full: False
        then have "samplingLoop w mammalRecords (attempts + 1) sr1 (Some sel1) st1
                     = (Inr (sr1, Some sel1), st1)"
          by (subst samplingLoop.simps) simp
        with step pool full show ?thesis by (simp add: n)
      qed
    qed
  qed
qed

lemma finishMammalPost_trace:
  "trace (snd (finishMammalPost w mammalRecords searchResult selectedMammal st)) = trace st"
  by (simp add: finishMammalPost_def Let_def mathRandom_def split: option.splits)

lemma finishMammalPost_failed:
  "fst (finishMammalPost w mammalRecords searchResult selectedMammal st)
     = Inl (FailedAfterAttempts n)
   \<Longrightarrow> n = maxAttempts \<and> isEmptyResult searchResult"
  by (auto simp: finishMammalPost_def Let_def mathRandom_def isEmptyResult_def
           split: option.splits if_splits)

lemma finishMammalPost_empty:
  "isEmptyResult searchResult
   \<Longrightarrow> fst (finishMammalPost w mammalRecords searchResult selectedMammal st)
         = Inl (FailedAfterAttempts maxAttempts)"
  by (auto simp: finishMammalPost_def isEmptyResult_def split: option.splits)

text \<open>
  C8: in sampling mode the attempt and delay events of a run are an initial part of
  attempt 1, delay, attempt 2, delay, attempt 3, delay, attempt 4, delay, attempt 5, each
  delay being 5000 milliseconds: at most five attempts are made and every attempt after
  the first follows a five-second delay. The exhaustion failure carries the count 5 and
  occurs only after exactly that sequence, with nothing after the fifth attempt. With a
  non-empty reference list, the run ends in that failure exactly when each of the five
  attempts ends with an empty candidate pool, whether because the searches found nothing
  or because the classifier kept none of the assets of the family search.
\<close>

theorem C8_five_attempts_then_failure:
  "\<exists>ev. trace (snd (generateMammalPost w None st)) = trace st @ ev
     \<and> (\<exists>rest. [Attempt 1, Sleep 5000, Attempt 2, Sleep 5000, Attempt 3, Sleep 5000,
                 Attempt 4, Sleep 5000, Attempt 5] = pacing ev @ rest)
     \<and> (\<forall>n. fst (generateMammalPost w None st) = Inl (FailedAfterAttempts n)
           \<longrightarrow> n = 5
             \<and> pacing ev = [Attempt 1, Sleep 5000, Attempt 2, Sleep 5000, Attempt 3,
                             Sleep 5000, Attempt 4, Sleep 5000, Attempt 5])
     \<and> (\<forall>mammalRecords. mammalCsv w = Some mammalRecords \<and> mammalRecords \<noteq> []
           \<longrightarrow> (fst (generateMammalPost w None st) = Inl (FailedAfterAttempts 5))
                 = attemptsAllEmpty w mammalRecords 5 0 st)"
proof (cases "\<exists>mammalRecords. mammalCsv w = Some mammalRecords \<and> mammalRecords \<noteq> []")
  case False
  then have "generateMammalPost w None st = (Inl CsvNotFound, st)
             \<or> generateMammalPost w None st = (Inl NoRecords, st)"
    by (auto simp: generateMammalPost_def split: option.splits)
  then have "trace (snd (generateMammalPost w None st)) = trace st @ []"
    and "\<forall>n. fst (generateMammalPost w None st) \<noteq> Inl (FailedAfterAttempts n)"
    by auto
  with False show ?thesis
    by (intro exI [of _ "[]"]) (auto simp: pacing_simps)
next
  case True
  then obtain mammalRecords where csv: "mammalCsv w = Some mammalRecords"
    and ne: "mammalRecords \<noteq> []"
    by (elim exE conjE)
  obtain out st1 where l: "samplingLoop w mammalRecords 0 None None st = (out, st1)"
    by (cases "samplingLoop w mammalRecords 0 None None st")
  from samplingLoop_trace [OF l] obtain ev rest where
    t: "trace st1 = trace st @ ev"
    and pre: "missedSchedule 0 = pacing ev @ rest"
    and all: "\<forall>sr sel. out = Inr (sr, sel) \<and> isEmptyResult sr \<longrightarrow> pacing ev = missedSchedule 0"
    and err: "\<forall>e. out = Inl e \<longrightarrow> e = TypeError"
    by auto
  have run: "generateMammalPost w None st
               = (case out of
                    Inl e \<Rightarrow> (Inl e, st1)
                  | Inr (sr, sel) \<Rightarrow> finishMammalPost w mammalRecords sr sel st1)"
    using l
    by (simp add: generateMammalPost_pool [OF csv ne] resolvePool_def split: sum.splits)
  have tr: "trace (snd (generateMammalPost w None st)) = trace st @ ev"
    unfolding run using t
    by (cases out) (auto simp: finishMammalPost_trace)
  have failed: "n = 5 \<and> pacing ev = missedSchedule 0
                \<and> (\<exists>sr sel. out = Inr (sr, sel) \<and> isEmptyResult sr)"
    if "fst (generateMammalPost w None st) = Inl (FailedAfterAttempts n)" for n
  proof (cases out)
    case (Inl e)
    with err have "e = TypeError" by simp
    with that Inl run show ?thesis by simp
  next
    case (Inr pair)
    obtain sr sel where pair: "pair = (sr, sel)" by (cases pair)
    with that Inr run
    have "fst (finishMammalPost w mammalRecords sr sel st1) = Inl (FailedAfterAttempts n)"
      by simp
    then have "n = maxAttempts \<and> isEmptyResult sr"
      by (rule finishMammalPost_failed)
    with all Inr pair show ?thesis
      by (simp add: maxAttempts_def)
  qed
  have loop: "(\<exists>sr sel. out = Inr (sr, sel) \<and> isEmptyResult sr)
                = attemptsAllEmpty w mammalRecords 5 0 st"
    using samplingLoop_exhausts [of 0 None w mammalRecords None st] l
    by (simp add: isEmptyResult_def maxAttempts_def)
  have exhausted: "(fst (generateMammalPost w None st) = Inl (FailedAfterAttempts 5))
                     = attemptsAllEmpty w mammalRecords 5 0 st"
  proof (cases "attemptsAllEmpty w mammalRecords 5 0 st")
    case True
    with loop obtain sr sel where "out = Inr (sr, sel)" "isEmptyResult sr"
      by auto
    then have "fst (generateMammalPost w None st) = Inl (FailedAfterAttempts 5)"
      unfolding run by (simp add: finishMammalPost_empty maxAttempts_def)
    with True show ?thesis by simp
  next
    case False
    with loop failed [of 5] show ?thesis by auto
  qed
  have records: "\<forall>recs. mammalCsv w = Some recs \<and> recs \<noteq> []
           \<longrightarrow> (fst (generateMammalPost w None st) = Inl (FailedAfterAttempts 5))
                 = attemptsAllEmpty w recs 5 0 st"
    using csv exhausted by simp
  have count: "\<forall>n. fst (generateMammalPost w None st) = Inl (FailedAfterAttempts n)
           \<longrightarrow> n = 5 \<and> pacing ev = missedSchedule 0"
    using failed by simp
  from pre have sched: "\<exists>rest. missedSchedule 0 = pacing ev @ rest"
    by (rule exI)
  show ?thesis
    apply (rule exI [of _ ev])
    using tr sched count records unfolding missedSchedule_0
    by (intro conjI)
qed

theorem C8_five_attempts_then_failure_witness:
  "mammalCsv familyRankWorld = Some [walrus] \<and> [walrus] \<noteq> []
   \<and> \<not> isEmptyResult
         (fst (searchMacaulayByTaxonomy familyRankWorld ''Odobenidae'' FamilyRank initialState))
   \<and> attemptsAllEmpty familyRankWorld [walrus] 5 0 initialState
   \<and> fst (generateMammalPost familyRankWorld None initialState) = Inl (FailedAfterAttempts 5)
   \<and> pacing (trace (snd (generateMammalPost familyRankWorld None initialState)))
       = [Attempt 1, Sleep 5000, Attempt 2, Sleep 5000, Attempt 3, Sleep 5000,
          Attempt 4, Sleep 5000, Attempt 5]
   \<and> mammalCsv familyWorld = Some [walrus]
   \<and> \<not> attemptsAllEmpty familyWorld [walrus] 5 0 initialState
   \<and> fst (generateMammalPost familyWorld None initialState) \<noteq> Inl (FailedAfterAttempts 5)"
proof -
  have csv: "mammalCsv familyRankWorld = Some [walrus]" and ne: "[walrus] \<noteq> []"
    by (simp_all add: familyRankWorld_def)
  have found: "\<not> isEmptyResult
         (fst (searchMacaulayByTaxonomy familyRankWorld ''Odobenidae'' FamilyRank initialState))"
    by code_simp
  have empty: "attemptsAllEmpty familyRankWorld [walrus] 5 0 initialState"
    by code_simp
  from C8_five_attempts_then_failure [of familyRankWorld initialState]
  obtain ev where parts:
    "trace (snd (generateMammalPost familyRankWorld None initialState))
       = trace initialState @ ev
     \<and> (\<exists>rest. [Attempt 1, Sleep 5000, Attempt 2, Sleep 5000, Attempt 3, Sleep 5000,
                 Attempt 4, Sleep 5000, Attempt 5] = pacing ev @ rest)
     \<and> (\<forall>n. fst (generateMammalPost familyRankWorld None initialState)
                = Inl (FailedAfterAttempts n)
           \<longrightarrow> n = 5
             \<and> pacing ev = [Attempt 1, Sleep 5000, Attempt 2, Sleep 5000, Attempt 3,
                             Sleep 5000, Attempt 4, Sleep 5000, Attempt 5])
     \<and> (\<forall>mammalRecords. mammalCsv familyRankWorld = Some mammalRecords
                         \<and> mammalRecords \<noteq> []
           \<longrightarrow> (fst (generateMammalPost familyRankWorld None initialState)
                   = Inl (FailedAfterAttempts 5))
                 = attemptsAllEmpty familyRankWorld mammalRecords 5 0 initialState)"
    by (rule exE)
  note t = parts [THEN conjunct1]
  note failure = parts [THEN conjunct2, THEN conjunct2, THEN conjunct1]
  note exhausted = parts [THEN conjunct2, THEN conjunct2, THEN conjunct2]
  have "(fst (generateMammalPost familyRankWorld None initialState)
           = Inl (FailedAfterAttempts 5))
          = attemptsAllEmpty familyRankWorld [walrus] 5 0 initialState"
    by (rule exhausted [THEN spec, THEN mp, OF conjI [OF csv ne]])
  with empty
  have f: "fst (generateMammalPost familyRankWorld None initialState)
             = Inl (FailedAfterAttempts 5)"
    by (rule_tac iffD2)
  have p: "pacing ev = [Attempt 1, Sleep 5000, Attempt 2, Sleep 5000, Attempt 3,
                             Sleep 5000, Attempt 4, Sleep 5000, Attempt 5]"
    by (rule failure [THEN spec, THEN mp, OF f, THEN conjunct2])
  from t have "trace (snd (generateMammalPost familyRankWorld None initialState)) = ev"
    by (simp add: initialState_def)
  with p have p': "pacing (trace (snd (generateMammalPost familyRankWorld None initialState)))
       = [Attempt 1, Sleep 5000, Attempt 2, Sleep 5000, Attempt 3, Sleep 5000,
          Attempt 4, Sleep 5000, Attempt 5]"
    by (simp only:)
  have csv': "mammalCsv familyWorld = Some [walrus]"
    by (simp add: familyWorld_def)
  have hit: "\<not> attemptsAllEmpty familyWorld [walrus] 5 0 initialState"
    by code_simp
  from C8_five_attempts_then_failure [of familyWorld initialState]
  have "\<forall>mammalRecords. mammalCsv familyWorld = Some mammalRecords \<and> mammalRecords \<noteq> []
           \<longrightarrow> (fst (generateMammalPost familyWorld None initialState)
                   = Inl (FailedAfterAttempts 5))
                 = attemptsAllEmpty familyWorld mammalRecords 5 0 initialState"
    by (elim exE conjE)
  from this [THEN spec, THEN mp, OF conjI [OF csv' ne]] hit
  have g: "fst (generateMammalPost familyWorld None initialState)
             \<noteq> Inl (FailedAfterAttempts 5)"
    by (simp only: simp_thms)
  from csv ne found empty f p' csv' hit g show ?thesis
    by (intro conjI)
qed

end
